theory Spec2Isabelle
  imports Complex_Main
begin

section \<open>Numbers of the host language\<close>

text \<open>
  The application computes with JavaScript numbers. A number is modelled as an exact
  rational or one of the three non-finite values. Arithmetic on finite values is exact:
  the rounding of binary64, overflow to infinity, underflow and the sign of zero are
  outside this model. Every statement below about a finite result is therefore a
  statement in exact decimal arithmetic. Where that rounding could decide what a
  statement says, the statement is about strings and about the values that are not
  finite, or it is restricted to short numerals and to magnitudes on which an
  inequality keeps a margin far above the rounding error.
\<close>

datatype jsnum = Num rat | NaN | PosInf | NegInf

fun js_add :: "jsnum \<Rightarrow> jsnum \<Rightarrow> jsnum" where
  "js_add (Num a) (Num b) = Num (a + b)"
| "js_add NaN _ = NaN"
| "js_add _ NaN = NaN"
| "js_add PosInf NegInf = NaN"
| "js_add NegInf PosInf = NaN"
| "js_add PosInf _ = PosInf"
| "js_add _ PosInf = PosInf"
| "js_add NegInf _ = NegInf"
| "js_add _ NegInf = NegInf"

definition inf_of_sign :: "bool \<Rightarrow> jsnum" where
  "inf_of_sign negative = (if negative then NegInf else PosInf)"

fun js_mul :: "jsnum \<Rightarrow> jsnum \<Rightarrow> jsnum" where
  "js_mul (Num a) (Num b) = Num (a * b)"
| "js_mul NaN _ = NaN"
| "js_mul _ NaN = NaN"
| "js_mul PosInf (Num b) = (if b = 0 then NaN else inf_of_sign (b < 0))"
| "js_mul NegInf (Num b) = (if b = 0 then NaN else inf_of_sign (0 < b))"
| "js_mul (Num a) PosInf = (if a = 0 then NaN else inf_of_sign (a < 0))"
| "js_mul (Num a) NegInf = (if a = 0 then NaN else inf_of_sign (0 < a))"
| "js_mul PosInf PosInf = PosInf"
| "js_mul NegInf NegInf = PosInf"
| "js_mul PosInf NegInf = NegInf"
| "js_mul NegInf PosInf = NegInf"

fun js_div :: "jsnum \<Rightarrow> jsnum \<Rightarrow> jsnum" where
  "js_div (Num a) (Num b) =
     (if b \<noteq> 0 then Num (a / b)
      else if a = 0 then NaN
      else inf_of_sign (a < 0))"
| "js_div NaN _ = NaN"
| "js_div _ NaN = NaN"
| "js_div (Num a) PosInf = Num 0"
| "js_div (Num a) NegInf = Num 0"
| "js_div PosInf (Num b) = inf_of_sign (b < 0)"
| "js_div NegInf (Num b) = inf_of_sign (0 \<le> b)"
| "js_div PosInf PosInf = NaN"
| "js_div PosInf NegInf = NaN"
| "js_div NegInf PosInf = NaN"
| "js_div NegInf NegInf = NaN"

text \<open>\<open>isNaN\<close>, \<open>Number.isFinite\<close> and the truth value of a number (\<open>n || 1\<close>).\<close>

fun isNaN :: "jsnum \<Rightarrow> bool" where
  "isNaN NaN = True"
| "isNaN _ = False"

fun isFinite :: "jsnum \<Rightarrow> bool" where
  "isFinite (Num a) = True"
| "isFinite _ = False"

fun truthy :: "jsnum \<Rightarrow> bool" where
  "truthy (Num a) = (a \<noteq> 0)"
| "truthy NaN = False"
| "truthy _ = True"

text \<open>The rational behind a finite number (0 for the others, where it is not used).\<close>

definition num_of :: "jsnum \<Rightarrow> rat" where
  "num_of n = (case n of Num q \<Rightarrow> q | _ \<Rightarrow> 0)"

section \<open>Decimal strings\<close>

definition is_digit :: "char \<Rightarrow> bool" where
  "is_digit c = (48 \<le> (of_char c :: nat) \<and> (of_char c :: nat) \<le> 57)"

definition digit_val :: "char \<Rightarrow> nat" where
  "digit_val c = of_char c - 48"

definition digit_char :: "nat \<Rightarrow> char" where
  "digit_char d = char_of (48 + d)"

definition nat_of_digits :: "string \<Rightarrow> nat" where
  "nat_of_digits ds = foldl (\<lambda>acc c. 10 * acc + digit_val c) 0 ds"

fun digits_of_nat :: "nat \<Rightarrow> string" where
  "digits_of_nat n =
     (if n < 10 then [digit_char n] else digits_of_nat (n div 10) @ [digit_char (n mod 10)])"

declare digits_of_nat.simps [simp del]

text \<open>
  The value of an unsigned decimal mantissa \<open>ip.fp\<close>: the integer part plus the
  fraction digits scaled by their count.
\<close>

definition mantissa_val :: "string \<Rightarrow> string \<Rightarrow> rat" where
  "mantissa_val ip fp = of_nat (nat_of_digits ip) + of_nat (nat_of_digits fp) / 10 ^ length fp"

text \<open>
  \<open>parseFloat\<close>: the longest prefix of the argument that is a decimal literal is
  converted, and the result is not-a-number when no prefix is one. The literal is an
  optional sign, then digits with an optional point and further digits, or a point
  followed by digits. The exponent part, the word Infinity and leading white space of the
  full grammar need a letter, a plus sign or a blank; this function is only applied to
  strings from which those have been removed.
\<close>

definition split_sign :: "string \<Rightarrow> bool \<times> string" where
  "split_sign s =
     (case s of
        [] \<Rightarrow> (False, [])
      | c # r \<Rightarrow> if c = CHR ''-'' then (True, r) else if c = CHR ''+'' then (False, r) else (False, s))"

definition frac_digits :: "string \<Rightarrow> string" where
  "frac_digits r =
     (case r of
        [] \<Rightarrow> []
      | c # r' \<Rightarrow> if c = CHR ''.'' then takeWhile is_digit r' else [])"

definition signed :: "bool \<Rightarrow> rat \<Rightarrow> rat" where
  "signed negative x = (if negative then - x else x)"

definition parseFloat :: "string \<Rightarrow> jsnum" where
  "parseFloat s =
     (let (negative, r) = split_sign s;
          ip = takeWhile is_digit r;
          fp = frac_digits (dropWhile is_digit r)
      in if ip = [] \<and> fp = [] then NaN
         else Num (signed negative (mantissa_val ip fp)))"

text \<open>
  \<open>Number(s)\<close> on a string: the whole string has to be a numeric literal. The empty
  string is 0; a decimal literal may carry an exponent part; anything else is
  not-a-number. White space, the word Infinity and the hexadecimal, octal and binary
  literals are not modelled: no string printed by \<open>toFixed\<close> contains them.
\<close>

definition exponent_part :: "string \<Rightarrow> (bool \<times> nat) option" where
  "exponent_part r =
     (case r of
        [] \<Rightarrow> Some (False, 0)
      | c # r' \<Rightarrow>
          if c = CHR ''e'' \<or> c = CHR ''E'' then
            (let (negative, ds) = split_sign r'
             in if ds \<noteq> [] \<and> list_all is_digit ds then Some (negative, nat_of_digits ds) else None)
          else None)"

definition js_Number :: "string \<Rightarrow> jsnum" where
  "js_Number s =
     (if s = [] then Num 0
      else
        let (negative, r) = split_sign s;
            ip = takeWhile is_digit r;
            r1 = dropWhile is_digit r;
            fp = frac_digits r1;
            r2 = (case r1 of [] \<Rightarrow> [] | c # r' \<Rightarrow> if c = CHR ''.'' then dropWhile is_digit r' else r1)
        in if ip = [] \<and> fp = [] then NaN
           else (case exponent_part r2 of
                   None \<Rightarrow> NaN
                 | Some (eneg, e) \<Rightarrow>
                     Num (signed negative
                            (if eneg then mantissa_val ip fp / 10 ^ e else mantissa_val ip fp * 10 ^ e))))"

text \<open>
  \<open>n.toFixed(d)\<close> for a finite \<open>n\<close>. Below \<open>10^21\<close> in magnitude the result is in
  fixed notation: with \<open>k\<close> the integer nearest to \<open>|n| * 10^d\<close> (the larger one on a
  tie), the digits of \<open>k\<close> padded with zeros on the left to at least \<open>d + 1\<close> digits,
  a point before the last \<open>d\<close> of them, and a minus sign whenever \<open>n < 0\<close>. From
  \<open>10^21\<close> on the method returns the number's ordinary string, which is in exponent
  notation there. The digits which the shortest binary64 round trip would select are
  taken to be the leading 17 significant digits of the exact value, trailing zeros
  removed.
\<close>

definition pad_zeros :: "nat \<Rightarrow> string \<Rightarrow> string" where
  "pad_zeros len ds = replicate (len - length ds) (CHR ''0'') @ ds"

definition strip_trailing_zeros :: "string \<Rightarrow> string" where
  "strip_trailing_zeros ds = rev (dropWhile (\<lambda>c. c = CHR ''0'') (rev ds))"

definition exponent_notation :: "rat \<Rightarrow> string" where
  "exponent_notation x =
     (let ds = digits_of_nat (nat \<lfloor>\<bar>x\<bar>\<rfloor>);
          sig = strip_trailing_zeros (take 17 ds)
      in (if x < 0 then ''-'' else [])
         @ take 1 sig
         @ (if drop 1 sig = [] then [] else CHR ''.'' # drop 1 sig)
         @ ''e+'' @ digits_of_nat (length ds - 1))"

definition fixed_notation :: "rat \<Rightarrow> nat \<Rightarrow> string" where
  "fixed_notation x d =
     (let k = nat \<lfloor>\<bar>x\<bar> * 10 ^ d + 1 / 2\<rfloor>;
          m = pad_zeros (d + 1) (digits_of_nat k);
          a = take (length m - d) m;
          b = drop (length m - d) m
      in (if x < 0 then ''-'' else []) @ a @ (if d = 0 then [] else CHR ''.'' # b))"

definition toFixed :: "rat \<Rightarrow> nat \<Rightarrow> string" where
  "toFixed x d = (if 10 ^ 21 \<le> \<bar>x\<bar> then exponent_notation x else fixed_notation x d)"

section \<open>Utilities of the application\<close>

text \<open>
  \<open>numFromUnitString\<close>: an absent or empty argument gives 0; otherwise every maximal
  run of characters other than digits, the point and the minus sign is deleted
  (\<open>replace(/[^\d.\-]+/g, "")\<close>), what remains is handed to \<open>parseFloat\<close>, and
  not-a-number is replaced by 0. The class \<open>\d\<close> is the ten ASCII digits; a character
  outside ASCII is several bytes here, none of which is kept, as the character itself is
  not kept there.
\<close>

definition keep_char :: "char \<Rightarrow> bool" where
  "keep_char c = (is_digit c \<or> c = CHR ''.'' \<or> c = CHR ''-'')"

definition strip_units :: "string \<Rightarrow> string" where
  "strip_units v = filter keep_char v"

definition numFromUnitString :: "string option \<Rightarrow> jsnum" where
  "numFromUnitString v =
     (case v of
        None \<Rightarrow> Num 0
      | Some s \<Rightarrow>
          if s = [] then Num 0
          else (let n = parseFloat (strip_units s) in if isNaN n then Num 0 else n))"

text \<open>\<open>toFixedSafe(n, d = 1)\<close>: the fixed-point string of a finite number, \<open>"0.0"\<close> otherwise.\<close>

definition toFixedSafe :: "jsnum \<Rightarrow> nat \<Rightarrow> string" where
  "toFixedSafe n d = (if isFinite n then toFixed (num_of n) d else ''0.0'')"

section \<open>Data model\<close>

text \<open>
  \<open>NutrientItem\<close>: the name and six optional strings that carry their unit as a
  suffix. The source's keys are Japanese words; the fields are, in the source's order:
  ingredient name, quantity, weight, calories, protein, fat, carbohydrate.
\<close>

record NutrientItem =
  item_name :: string
  item_quantity :: "string option"
  item_weight :: "string option"
  item_calories :: "string option"
  item_protein :: "string option"
  item_fat :: "string option"
  item_carbohydrate :: "string option"

text \<open>\<open>MealTime\<close>: the three literals of the source, for morning, noon and night.\<close>

datatype MealTime = Asa | Hiru | Yoru

record CalorieSplit =
  morning :: jsnum
  lunch :: jsnum
  dinner :: jsnum

record Totals =
  kcal :: jsnum
  protein :: jsnum
  fat :: jsnum
  carbs :: jsnum

text \<open>
  \<open>DayRecord\<close> maps each meal time to the meals recorded for it, a meal being a list of
  items; \<open>DailyRecords\<close> maps a date key to the day's record.
\<close>

type_synonym DayRecord = "MealTime \<Rightarrow> NutrientItem list list"

type_synonym DailyRecords = "string \<rightharpoonup> DayRecord"

section \<open>Totals of a date\<close>

definition zero_totals :: Totals where
  "zero_totals = \<lparr>kcal = Num 0, protein = Num 0, fat = Num 0, carbs = Num 0\<rparr>"

text \<open>The body of the innermost loop: the four running sums take one item.\<close>

definition add_item :: "Totals \<Rightarrow> NutrientItem \<Rightarrow> Totals" where
  "add_item t item =
     \<lparr>kcal = js_add (kcal t) (numFromUnitString (item_calories item)),
      protein = js_add (protein t) (numFromUnitString (item_protein item)),
      fat = js_add (fat t) (numFromUnitString (item_fat item)),
      carbs = js_add (carbs t) (numFromUnitString (item_carbohydrate item))\<rparr>"

text \<open>\<open>Object.values\<close> of a day's record, in the order in which the keys were created.\<close>

definition object_values :: "DayRecord \<Rightarrow> NutrientItem list list list" where
  "object_values records = [records Asa, records Hiru, records Yoru]"

definition round_totals :: "Totals \<Rightarrow> Totals" where
  "round_totals t =
     \<lparr>kcal = js_Number (toFixedSafe (kcal t) 1),
      protein = js_Number (toFixedSafe (protein t) 1),
      fat = js_Number (toFixedSafe (fat t) 1),
      carbs = js_Number (toFixedSafe (carbs t) 1)\<rparr>"

definition getTotalForDate :: "DailyRecords \<Rightarrow> string \<Rightarrow> Totals" where
  "getTotalForDate dailyRecords date =
     (case dailyRecords date of
        None \<Rightarrow> \<lparr>kcal = Num 0, protein = Num 0, fat = Num 0, carbs = Num 0\<rparr>
      | Some records \<Rightarrow>
          round_totals
            (foldl (\<lambda>t mealTimes. foldl (\<lambda>t meal. foldl add_item t meal) t mealTimes)
               zero_totals (object_values records)))"

section \<open>Scaling an extracted list\<close>

text \<open>The share of each meal time: its percentage divided by 100.\<close>

definition mealRatiosCalc :: "CalorieSplit \<Rightarrow> MealTime \<Rightarrow> jsnum" where
  "mealRatiosCalc split m =
     (case m of
        Asa \<Rightarrow> js_div (morning split) (Num 100)
      | Hiru \<Rightarrow> js_div (lunch split) (Num 100)
      | Yoru \<Rightarrow> js_div (dinner split) (Num 100))"

text \<open>The numerator of the scale factor: the calorie budget of the meal time.\<close>

definition slotBudget :: "jsnum \<Rightarrow> CalorieSplit \<Rightarrow> MealTime \<Rightarrow> jsnum" where
  "slotBudget goalCalories split m = js_mul (mealRatiosCalc split m) goalCalories"

text \<open>\<open>kcalSum || 1\<close>: the sum itself unless it is zero or not-a-number.\<close>

definition scaleBase :: "jsnum \<Rightarrow> jsnum" where
  "scaleBase kcalSum = (if truthy kcalSum then kcalSum else Num 1)"

definition scaleFactor :: "jsnum \<Rightarrow> jsnum \<Rightarrow> jsnum" where
  "scaleFactor budget kcalSum = js_div budget (scaleBase kcalSum)"

text \<open>
  One step of the \<open>map\<close>: a copy of the item in which the four nutrient strings are
  overwritten.
\<close>

definition scale_item :: "jsnum \<Rightarrow> NutrientItem \<Rightarrow> NutrientItem" where
  "scale_item factor item =
     (let kcal = numFromUnitString (item_calories item);
          protein = numFromUnitString (item_protein item);
          fat = numFromUnitString (item_fat item);
          carb = numFromUnitString (item_carbohydrate item)
      in item
         \<lparr>item_calories := Some (toFixedSafe (js_mul kcal factor) 1 @ ''kcal''),
          item_protein := Some (toFixedSafe (js_mul protein factor) 1 @ ''g''),
          item_fat := Some (toFixedSafe (js_mul fat factor) 1 @ ''g''),
          item_carbohydrate := Some (toFixedSafe (js_mul carb factor) 1 @ ''g'')\<rparr>)"

definition raw_sums :: "NutrientItem list \<Rightarrow> Totals" where
  "raw_sums arr = foldl add_item zero_totals arr"

definition scaledIngredients :: "jsnum \<Rightarrow> NutrientItem list \<Rightarrow> NutrientItem list" where
  "scaledIngredients budget arr = map (scale_item (scaleFactor budget (kcal (raw_sums arr)))) arr"

text \<open>The four totals that are displayed: each raw sum times the factor, rounded.\<close>

definition scaled_totals :: "jsnum \<Rightarrow> NutrientItem list \<Rightarrow> Totals" where
  "scaled_totals budget arr =
     (let raw = raw_sums arr;
          factor = scaleFactor budget (kcal raw)
      in \<lparr>kcal = js_Number (toFixedSafe (js_mul (kcal raw) factor) 1),
          protein = js_Number (toFixedSafe (js_mul (protein raw) factor) 1),
          fat = js_Number (toFixedSafe (js_mul (fat raw) factor) 1),
          carbs = js_Number (toFixedSafe (js_mul (carbs raw) factor) 1)\<rparr>)"

section \<open>The daily records\<close>

text \<open>
  The update passed to \<open>setDailyRecords\<close>: the day's record is created with three empty
  lists when the date key is absent, and the meal is pushed onto the list of its meal
  time. The source copies the outer object only and pushes onto the list that the previous
  state holds as well; the function here returns the records after one run of the update.
\<close>

definition empty_day :: DayRecord where
  "empty_day = (\<lambda>m. [])"

definition day_or_empty :: "DailyRecords \<Rightarrow> string \<Rightarrow> DayRecord" where
  "day_or_empty prev dateKey = (case prev dateKey of None \<Rightarrow> empty_day | Some day \<Rightarrow> day)"

definition append_meal :: "string \<Rightarrow> MealTime \<Rightarrow> NutrientItem list \<Rightarrow> DailyRecords \<Rightarrow> DailyRecords" where
  "append_meal dateKey m meal prev =
     (let day = day_or_empty prev dateKey
      in prev(dateKey \<mapsto> day(m := day m @ [meal])))"

section \<open>Handling the extraction result\<close>

text \<open>
  The state of the component that the handler reads and writes, and the shapes the
  parsed reply is told apart by: an array; an object, together with its
  \<open>ingredients\<close> property when that is an array; anything else. The casts of the
  source to \<open>NutrientItem\<close> are taken at their word.
\<close>

record AppState =
  ingredients :: "NutrientItem list"
  totalCalories :: jsnum
  totalProtein :: jsnum
  totalFat :: jsnum
  totalCarbs :: jsnum
  goalCalories :: jsnum
  calorieSplit :: CalorieSplit
  mealTime :: MealTime
  dailyRecords :: DailyRecords

datatype parsed =
    ParsedArray "NutrientItem list"
  | ParsedObject NutrientItem "NutrientItem list option"
  | ParsedOther

definition on_parsed :: "string \<Rightarrow> parsed \<Rightarrow> AppState \<Rightarrow> AppState" where
  "on_parsed dateKey p st =
     (case p of
        ParsedArray arr \<Rightarrow>
          (let budget = slotBudget (goalCalories st) (calorieSplit st) (mealTime st);
               scaled = scaledIngredients budget arr;
               t = scaled_totals budget arr
           in st\<lparr>ingredients := scaled,
                 totalCalories := kcal t,
                 totalProtein := protein t,
                 totalFat := fat t,
                 totalCarbs := carbs t,
                 dailyRecords := append_meal dateKey (mealTime st) scaled (dailyRecords st)\<rparr>)
      | ParsedObject obj (Some arr) \<Rightarrow>
          st\<lparr>ingredients := arr,
              totalCalories :=
                foldl (\<lambda>sum item. js_add sum (numFromUnitString (item_calories item))) (Num 0) arr\<rparr>
      | ParsedObject obj None \<Rightarrow>
          st\<lparr>ingredients := [obj],
              totalCalories := numFromUnitString (item_calories obj)\<rparr>
      | ParsedOther \<Rightarrow> st)"

section \<open>The proxy\<close>

text \<open>
  The request handler of the proxy. A request has a method and possibly a body; of the
  body only the \<open>prompt\<close> property is read, which is any value of the host language.
  The upstream call either throws or replies with a status and a body.
\<close>

datatype jsvalue = JUndefined | JNull | JBool bool | JNumber jsnum | JString string | JObject

fun js_truthy :: "jsvalue \<Rightarrow> bool" where
  "js_truthy JUndefined = False"
| "js_truthy JNull = False"
| "js_truthy (JBool b) = b"
| "js_truthy (JNumber n) = truthy n"
| "js_truthy (JString s) = (s \<noteq> [])"
| "js_truthy JObject = True"

record Request =
  req_method :: string
  req_body :: "jsvalue option"

datatype upstream = Throws | Reply nat string

datatype payload = Ended | Error string | Data string

record Response =
  status :: nat
  body :: payload

definition request_prompt :: "Request \<Rightarrow> jsvalue" where
  "request_prompt req = (case req_body req of None \<Rightarrow> JUndefined | Some p \<Rightarrow> p)"

definition handler :: "Request \<Rightarrow> string option \<Rightarrow> (string \<Rightarrow> jsvalue \<Rightarrow> upstream) \<Rightarrow> Response" where
  "handler req apiKey fetch =
     (if req_method req = ''OPTIONS'' then \<lparr>status = 200, body = Ended\<rparr>
      else if req_method req \<noteq> ''POST'' then \<lparr>status = 405, body = Error ''Method not allowed''\<rparr>
      else
        let prompt = request_prompt req
        in if \<not> js_truthy prompt then \<lparr>status = 400, body = Error ''Missing prompt''\<rparr>
           else (case apiKey of
                   None \<Rightarrow> \<lparr>status = 500, body = Error ''Server misconfig: OPENAI_API_KEY missing''\<rparr>
                 | Some key \<Rightarrow>
                     if key = [] then \<lparr>status = 500, body = Error ''Server misconfig: OPENAI_API_KEY missing''\<rparr>
                     else (case fetch key prompt of
                             Throws \<Rightarrow> \<lparr>status = 500, body = Error ''Server error''\<rparr>
                           | Reply code data \<Rightarrow> \<lparr>status = code, body = Data data\<rparr>)))"

section \<open>Vocabulary of the properties\<close>

text \<open>The four magnitudes of an item.\<close>

definition kcal_of :: "NutrientItem \<Rightarrow> rat" where
  "kcal_of item = num_of (numFromUnitString (item_calories item))"

definition protein_of :: "NutrientItem \<Rightarrow> rat" where
  "protein_of item = num_of (numFromUnitString (item_protein item))"

definition fat_of :: "NutrientItem \<Rightarrow> rat" where
  "fat_of item = num_of (numFromUnitString (item_fat item))"

definition carb_of :: "NutrientItem \<Rightarrow> rat" where
  "carb_of item = num_of (numFromUnitString (item_carbohydrate item))"

definition fin_totals :: "rat \<Rightarrow> rat \<Rightarrow> rat \<Rightarrow> rat \<Rightarrow> Totals" where
  "fin_totals a b c d = \<lparr>kcal = Num a, protein = Num b, fat = Num c, carbs = Num d\<rparr>"

text \<open>The exact sums of the four magnitudes over a list of items.\<close>

definition exact_sums :: "NutrientItem list \<Rightarrow> Totals" where
  "exact_sums items =
     fin_totals (sum_list (map kcal_of items)) (sum_list (map protein_of items))
       (sum_list (map fat_of items)) (sum_list (map carb_of items))"

definition percent_of :: "CalorieSplit \<Rightarrow> MealTime \<Rightarrow> jsnum" where
  "percent_of split m = (case m of Asa \<Rightarrow> morning split | Hiru \<Rightarrow> lunch split | Yoru \<Rightarrow> dinner split)"

text \<open>
  Rounding to one decimal, half away from zero, and the numeral that prints it: sign,
  digits of the integer part, point, one digit.
\<close>

definition round_tenths :: "rat \<Rightarrow> rat" where
  "round_tenths x = signed (x < 0) (of_nat (nat \<lfloor>\<bar>x\<bar> * 10 + 1 / 2\<rfloor>) / 10)"

definition one_decimal :: "bool \<Rightarrow> nat \<Rightarrow> nat \<Rightarrow> string" where
  "one_decimal negative a b =
     (if negative then ''-'' else []) @ digits_of_nat a @ CHR ''.'' # [digit_char b]"

definition decimal1 :: "rat \<Rightarrow> string" where
  "decimal1 x =
     one_decimal (x < 0) (nat \<lfloor>\<bar>x\<bar> * 10 + 1 / 2\<rfloor> div 10) (nat \<lfloor>\<bar>x\<bar> * 10 + 1 / 2\<rfloor> mod 10)"

text \<open>A number that is printed in fixed notation: below \<open>10^21\<close> in magnitude, or not finite.\<close>

definition in_fixed_range :: "jsnum \<Rightarrow> bool" where
  "in_fixed_range n = (case n of Num x \<Rightarrow> \<bar>x\<bar> < 10 ^ 21 | _ \<Rightarrow> True)"

text \<open>A multiple of one tenth, and an item whose four magnitudes are such multiples.\<close>

definition tenths :: "rat \<Rightarrow> bool" where
  "tenths x = (of_int \<lfloor>x * 10\<rfloor> = x * 10)"

definition one_decimal_item :: "NutrientItem \<Rightarrow> bool" where
  "one_decimal_item item =
     (tenths (kcal_of item) \<and> tenths (protein_of item) \<and> tenths (fat_of item) \<and> tenths (carb_of item))"

text \<open>Totals multiplied by a number, and the magnitudes of a list added up without their signs.\<close>

definition times_totals :: "rat \<Rightarrow> Totals \<Rightarrow> Totals" where
  "times_totals k t =
     \<lparr>kcal = js_mul (Num k) (kcal t), protein = js_mul (Num k) (protein t),
      fat = js_mul (Num k) (fat t), carbs = js_mul (Num k) (carbs t)\<rparr>"

definition total_magnitude :: "NutrientItem list \<Rightarrow> rat" where
  "total_magnitude items =
     sum_list (map (\<lambda>item. \<bar>kcal_of item\<bar> + \<bar>protein_of item\<bar> + \<bar>fat_of item\<bar> + \<bar>carb_of item\<bar>) items)"

text \<open>
  The four strings in which totals are shown on the page: each is printed by
  \<open>toFixedSafe\<close> with one decimal.
\<close>

definition shown_totals :: "Totals \<Rightarrow> string \<times> string \<times> string \<times> string" where
  "shown_totals t =
     (toFixedSafe (kcal t) 1, toFixedSafe (protein t) 1, toFixedSafe (fat t) 1, toFixedSafe (carbs t) 1)"

text \<open>
  The totals recomputed over the scaled items: what the totals of a date do with the
  items that the scaler has written.
\<close>

definition recomputed_totals :: "jsnum \<Rightarrow> NutrientItem list \<Rightarrow> Totals" where
  "recomputed_totals budget arr = round_totals (raw_sums (scaledIngredients budget arr))"

text \<open>The items of a date in the order in which the totals visit them, and the meals of one meal time.\<close>

definition all_items :: "DailyRecords \<Rightarrow> string \<Rightarrow> NutrientItem list" where
  "all_items ledger date =
     (case ledger date of
        None \<Rightarrow> []
      | Some records \<Rightarrow> concat (concat (object_values records)))"

definition meals_at :: "DailyRecords \<Rightarrow> string \<Rightarrow> MealTime \<Rightarrow> NutrientItem list list" where
  "meals_at ledger date m = (case ledger date of None \<Rightarrow> [] | Some records \<Rightarrow> records m)"

text \<open>An item with the four nutrient strings present and no quantity or weight.\<close>

definition nutrient_item :: "string \<Rightarrow> string \<Rightarrow> string \<Rightarrow> string \<Rightarrow> string \<Rightarrow> NutrientItem" where
  "nutrient_item name kcal_s protein_s fat_s carb_s =
     \<lparr>item_name = name, item_quantity = None, item_weight = None,
      item_calories = Some kcal_s, item_protein = Some protein_s,
      item_fat = Some fat_s, item_carbohydrate = Some carb_s\<rparr>"

text \<open>The state in which the component starts.\<close>

definition initial_state :: AppState where
  "initial_state =
     \<lparr>ingredients = [], totalCalories = Num 0, totalProtein = Num 0, totalFat = Num 0,
      totalCarbs = Num 0, goalCalories = Num 1200,
      calorieSplit = \<lparr>morning = Num 30, lunch = Num 40, dinner = Num 30\<rparr>,
      mealTime = Asa, dailyRecords = Map.empty\<rparr>"

text \<open>An upstream that always throws.\<close>

definition no_upstream :: "string \<Rightarrow> jsvalue \<Rightarrow> upstream" where
  "no_upstream key prompt = Throws"

text \<open>
  The unit parser as the specification words it: the first contiguous run of digits of
  the input itself, with a minus sign directly before it and a point with its digits
  directly after it when they are there; 0 for an absent input and when there is no such
  run.
\<close>

definition number_head :: "string \<Rightarrow> string" where
  "number_head r =
     takeWhile is_digit r
     @ (case dropWhile is_digit r of
          [] \<Rightarrow> []
        | c # r' \<Rightarrow> if c = CHR ''.'' then c # takeWhile is_digit r' else [])"

fun first_run :: "string \<Rightarrow> string" where
  "first_run [] = []"
| "first_run [c] = (if is_digit c then [c] else [])"
| "first_run (c # c' # r) =
     (if is_digit c then number_head (c # c' # r)
      else if c = CHR ''-'' \<and> is_digit c' then c # number_head (c' # r)
      else first_run (c' # r))"

definition spec_parseMagnitude :: "string option \<Rightarrow> jsnum" where
  "spec_parseMagnitude v =
     (case v of
        None \<Rightarrow> Num 0
      | Some s \<Rightarrow> (let n = parseFloat (first_run s) in if isNaN n then Num 0 else n))"

text \<open>
  Binary64. The source computes with binary64 numbers: every result is replaced by the
  nearest number with a significand of 53 bits, the even one on a tie. For a value in the
  binade from \<open>2^e\<close> up to \<open>2^(e+1)\<close>, with \<open>e\<close> from \<open>-1022\<close> to \<open>1023\<close>, these
  numbers are the multiples of \<open>2^(e-52)\<close>. No binary64 number reaches \<open>2^1024\<close> in
  magnitude: an exact result from there on is infinity in the source. These definitions
  are used at concrete inputs, to show where the source parts from exact arithmetic.
\<close>

definition pow2 :: "int \<Rightarrow> rat" where
  "pow2 e = (if 0 \<le> e then 2 ^ nat e else 1 / 2 ^ nat (- e))"

definition round_half_even :: "rat \<Rightarrow> int" where
  "round_half_even x =
     (let f = \<lfloor>x\<rfloor>
      in if x - of_int f < 1 / 2 then f
         else if 1 / 2 < x - of_int f then f + 1
         else if even f then f else f + 1)"

definition in_binade :: "int \<Rightarrow> rat \<Rightarrow> bool" where
  "in_binade e x = (pow2 e \<le> \<bar>x\<bar> \<and> \<bar>x\<bar> < pow2 (e + 1))"

definition binary64_in :: "int \<Rightarrow> rat \<Rightarrow> rat" where
  "binary64_in e x = of_int (round_half_even (x / pow2 (e - 52))) * pow2 (e - 52)"

definition binary64_limit :: rat where
  "binary64_limit = 2 ^ 1024"

section \<open>Finite sums\<close>

lemmas eval_parse =
  numFromUnitString_def strip_units_def keep_char_def is_digit_def parseFloat_def split_sign_def
  frac_digits_def mantissa_val_def nat_of_digits_def digit_val_def signed_def

lemmas eval_item = kcal_of_def protein_of_def fat_of_def carb_of_def nutrient_item_def num_of_def

lemma parseFloat_cases: "parseFloat s = NaN \<or> (\<exists>q. parseFloat s = Num q)"
  by (simp add: parseFloat_def Let_def split: prod.splits)

lemma numFromUnitString_finite: "\<exists>q. numFromUnitString v = Num q"
proof (cases v)
  case None
  then show ?thesis by (simp add: numFromUnitString_def)
next
  case (Some s)
  from parseFloat_cases [of "strip_units s"] show ?thesis
    using Some by (auto simp: numFromUnitString_def Let_def)
qed

lemma js_add_numFromUnitString:
  "js_add (Num a) (numFromUnitString v) = Num (a + num_of (numFromUnitString v))"
proof -
  obtain q where q: "numFromUnitString v = Num q"
    using numFromUnitString_finite by blast
  show ?thesis by (simp add: q num_of_def)
qed

lemma numFromUnitString_num_of:
  "numFromUnitString (item_calories item) = Num (kcal_of item)"
  "numFromUnitString (item_protein item) = Num (protein_of item)"
  "numFromUnitString (item_fat item) = Num (fat_of item)"
  "numFromUnitString (item_carbohydrate item) = Num (carb_of item)"
proof -
  have "numFromUnitString v = Num (num_of (numFromUnitString v))" for v
    using numFromUnitString_finite [of v] by (auto simp: num_of_def)
  then show
    "numFromUnitString (item_calories item) = Num (kcal_of item)"
    "numFromUnitString (item_protein item) = Num (protein_of item)"
    "numFromUnitString (item_fat item) = Num (fat_of item)"
    "numFromUnitString (item_carbohydrate item) = Num (carb_of item)"
    unfolding kcal_of_def protein_of_def fat_of_def carb_of_def by blast+
qed

lemma add_item_fin:
  "add_item (fin_totals a b c d) item =
     fin_totals (a + kcal_of item) (b + protein_of item) (c + fat_of item) (d + carb_of item)"
  by (simp add: add_item_def fin_totals_def kcal_of_def protein_of_def fat_of_def carb_of_def
      js_add_numFromUnitString)

lemma foldl_add_item_fin:
  "foldl add_item (fin_totals a b c d) arr =
     fin_totals (a + sum_list (map kcal_of arr)) (b + sum_list (map protein_of arr))
       (c + sum_list (map fat_of arr)) (d + sum_list (map carb_of arr))"
  by (induction arr arbitrary: a b c d) (simp_all add: add_item_fin add.assoc)

lemma raw_sums_exact: "raw_sums arr = exact_sums arr"
  using foldl_add_item_fin [of 0 0 0 0 arr]
  by (simp add: raw_sums_def zero_totals_def fin_totals_def exact_sums_def)

lemma kcal_raw_sums: "kcal (raw_sums arr) = Num (sum_list (map kcal_of arr))"
  by (simp add: raw_sums_exact exact_sums_def fin_totals_def)

lemma sum_list_all_zero: "list_all (\<lambda>x. f x = (0 :: rat)) xs \<Longrightarrow> sum_list (map f xs) = 0"
  by (induction xs) simp_all

lemma js_div_one: "js_div budget (Num 1) = budget"
  by (cases budget) (simp_all add: inf_of_sign_def)

lemma numFromUnitString_not_NaN: "\<not> isNaN (numFromUnitString v)"
  using numFromUnitString_finite [of v] by auto

section \<open>The proxy\<close>

text \<open>
  C9, as amended. The preflight method OPTIONS is answered with status 200 before the
  method is compared with POST; every other method that is not POST is rejected with
  405; a POST whose prompt is missing or falsy is rejected with 400; a POST with a prompt
  is answered with 500 when the server holds no credential or an empty one.
\<close>

theorem handler_status_by_case:
  "(req_method req = ''OPTIONS'' \<longrightarrow> status (handler req apiKey fetch) = 200) \<and>
   (req_method req \<noteq> ''OPTIONS'' \<and> req_method req \<noteq> ''POST'' \<longrightarrow>
      status (handler req apiKey fetch) = 405) \<and>
   (req_method req = ''POST'' \<and> \<not> js_truthy (request_prompt req) \<longrightarrow>
      status (handler req apiKey fetch) = 400) \<and>
   (req_method req = ''POST'' \<and> js_truthy (request_prompt req) \<and> (apiKey = None \<or> apiKey = Some []) \<longrightarrow>
      status (handler req apiKey fetch) = 500)"
  by (auto simp: handler_def Let_def split: option.splits)

theorem handler_status_by_case_witness:
  "status (handler \<lparr>req_method = ''OPTIONS'', req_body = None\<rparr> None no_upstream) = 200 \<and>
   status (handler \<lparr>req_method = ''GET'', req_body = None\<rparr> None no_upstream) = 405 \<and>
   status (handler \<lparr>req_method = ''POST'', req_body = Some (JString [])\<rparr> (Some ''key'') no_upstream) = 400 \<and>
   status (handler \<lparr>req_method = ''POST'', req_body = Some (JString ''rice'')\<rparr> None no_upstream) = 500"
  using handler_status_by_case [of "\<lparr>req_method = ''OPTIONS'', req_body = None\<rparr>" None no_upstream]
        handler_status_by_case [of "\<lparr>req_method = ''GET'', req_body = None\<rparr>" None no_upstream]
        handler_status_by_case [of "\<lparr>req_method = ''POST'', req_body = Some (JString [])\<rparr>" "Some ''key''" no_upstream]
        handler_status_by_case [of "\<lparr>req_method = ''POST'', req_body = Some (JString ''rice'')\<rparr>" None no_upstream]
  by (simp add: request_prompt_def)

text \<open>
  C9 as stated fails: OPTIONS is a method other than POST, and the request is answered
  with 200, not 405.
\<close>

theorem handler_options_is_not_rejected:
  "req_method \<lparr>req_method = ''OPTIONS'', req_body = Some (JString ''rice'')\<rparr> \<noteq> ''POST'' \<and>
   status (handler \<lparr>req_method = ''OPTIONS'', req_body = Some (JString ''rice'')\<rparr> (Some ''key'') no_upstream) = 200 \<and>
   status (handler \<lparr>req_method = ''OPTIONS'', req_body = Some (JString ''rice'')\<rparr> (Some ''key'') no_upstream) \<noteq> 405"
  by (simp add: handler_def)

section \<open>The budget of a meal time\<close>

text \<open>
  C7. The budget of a meal time is its percentage divided by 100 and multiplied by the
  goal. On finite values that is plain arithmetic on the one percentage: nothing is
  clamped, and the other two percentages do not enter. With goal 1200 and a morning share
  of 30 the budget is 360; with three shares of 30, which sum to 90, and goal 1000 it is
  300.
\<close>

theorem slot_budget_is_share_of_goal:
  "slotBudget goal split m = js_mul (js_div (percent_of split m) (Num 100)) goal \<and>
   slotBudget (Num g) \<lparr>morning = Num a, lunch = Num b, dinner = Num c\<rparr> Asa = Num (a / 100 * g) \<and>
   slotBudget (Num g) \<lparr>morning = Num a, lunch = Num b, dinner = Num c\<rparr> Hiru = Num (b / 100 * g) \<and>
   slotBudget (Num g) \<lparr>morning = Num a, lunch = Num b, dinner = Num c\<rparr> Yoru = Num (c / 100 * g) \<and>
   slotBudget (Num 1200) \<lparr>morning = Num 30, lunch = Num 40, dinner = Num 30\<rparr> Asa = Num 360 \<and>
   slotBudget (Num 1000) \<lparr>morning = Num 30, lunch = Num 30, dinner = Num 30\<rparr> Asa = Num 300"
  by (cases m) (simp_all add: slotBudget_def mealRatiosCalc_def percent_of_def)

theorem slot_budget_is_share_of_goal_witness:
  "slotBudget (Num (- 500)) \<lparr>morning = Num 250, lunch = Num (- 10), dinner = Num 0\<rparr> Asa = Num (- 1250) \<and>
   slotBudget (Num (- 500)) \<lparr>morning = Num 250, lunch = Num (- 10), dinner = Num 0\<rparr> Hiru = Num 50 \<and>
   slotBudget (Num (- 500)) \<lparr>morning = Num 250, lunch = Num (- 10), dinner = Num 0\<rparr> Yoru = Num 0"
  using slot_budget_is_share_of_goal [of "Num (- 500)" "\<lparr>morning = Num 250, lunch = Num (- 10), dinner = Num 0\<rparr>" Asa "- 500" 250 "- 10" 0]
  by (simp add: percent_of_def)

section \<open>The base and the factor of the scaling\<close>

text \<open>
  C4, as amended. The base of the division is the raw calorie sum whenever that sum is
  neither zero nor not-a-number, a negative sum included, and 1 otherwise. So the base is
  never zero and never not-a-number, the factor is the budget divided by a number other
  than zero, and for a finite budget the factor is never not-a-number, whatever the list
  of items is. For a list whose items all have calories that parse to zero, such as an
  all-zero or a fully unparseable extraction, the base is 1 and the factor is the budget
  itself. That the factor is finite is not part of the statement: the guard replaces a
  zero and nothing else, and the quotient by a base close to zero leaves the range of
  binary64.
\<close>

theorem scale_base_never_zero:
  "scaleBase kcalSum = (if kcalSum = Num 0 \<or> isNaN kcalSum then Num 1 else kcalSum) \<and>
   scaleBase kcalSum \<noteq> Num 0 \<and> \<not> isNaN (scaleBase kcalSum) \<and>
   (q < 0 \<longrightarrow> scaleBase (Num q) = Num q) \<and>
   scaleFactor budget kcalSum = js_div budget (scaleBase kcalSum) \<and>
   (isFinite budget \<longrightarrow> \<not> isNaN (scaleFactor budget kcalSum)) \<and>
   scaleBase (kcal (raw_sums arr)) \<noteq> Num 0 \<and> \<not> isNaN (scaleBase (kcal (raw_sums arr))) \<and>
   (isFinite budget \<longrightarrow> \<not> isNaN (scaleFactor budget (kcal (raw_sums arr)))) \<and>
   (list_all (\<lambda>item. kcal_of item = 0) arr \<longrightarrow>
      scaleBase (kcal (raw_sums arr)) = Num 1 \<and> scaleFactor budget (kcal (raw_sums arr)) = budget)"
proof -
  have base: "scaleBase k = (if k = Num 0 \<or> isNaN k then Num 1 else k)" for k
    by (cases k) (simp_all add: scaleBase_def)
  have nz: "scaleBase k \<noteq> Num 0 \<and> \<not> isNaN (scaleBase k)" for k
    by (cases k) (simp_all add: scaleBase_def)
  have neg: "q < 0 \<longrightarrow> scaleBase (Num q) = Num q"
    by (simp add: scaleBase_def)
  have fac: "scaleFactor budget k = js_div budget (scaleBase k)" for k
    by (simp add: scaleFactor_def)
  have nan: "isFinite budget \<longrightarrow> \<not> isNaN (scaleFactor budget k)" for k
    by (cases budget; cases k) (simp_all add: scaleFactor_def scaleBase_def)
  have zero: "list_all (\<lambda>item. kcal_of item = 0) arr \<longrightarrow>
      scaleBase (kcal (raw_sums arr)) = Num 1 \<and> scaleFactor budget (kcal (raw_sums arr)) = budget"
  proof
    assume "list_all (\<lambda>item. kcal_of item = 0) arr"
    then have "kcal (raw_sums arr) = Num 0"
      by (simp add: kcal_raw_sums sum_list_all_zero)
    then show "scaleBase (kcal (raw_sums arr)) = Num 1 \<and> scaleFactor budget (kcal (raw_sums arr)) = budget"
      by (simp add: scaleFactor_def scaleBase_def js_div_one)
  qed
  from base [of kcalSum] nz [of kcalSum] neg fac [of kcalSum] nan [of kcalSum]
    nz [of "kcal (raw_sums arr)"] nan [of "kcal (raw_sums arr)"] zero
  show ?thesis by (intro conjI) (erule conjE, assumption)+
qed

theorem scale_base_never_zero_witness:
  "scaleBase (Num (- 5)) = Num (- 5) \<and>
   \<not> isNaN (scaleFactor (Num 360) (Num (- 5))) \<and>
   scaleBase (kcal (raw_sums [nutrient_item ''rice'' ''abc'' ''1g'' ''1g'' ''1g''])) = Num 1 \<and>
   scaleFactor (Num 360) (kcal (raw_sums [nutrient_item ''rice'' ''abc'' ''1g'' ''1g'' ''1g''])) = Num 360"
proof -
  have z: "list_all (\<lambda>item. kcal_of item = 0) [nutrient_item ''rice'' ''abc'' ''1g'' ''1g'' ''1g'']"
    by (simp add: eval_item eval_parse)
  have n: "(- 5 :: rat) < 0" by simp
  have f: "isFinite (Num 360)" by simp
  from scale_base_never_zero [of "Num (- 5)" "- 5" "Num 360" "[nutrient_item ''rice'' ''abc'' ''1g'' ''1g'' ''1g'']"]
  show ?thesis using z n f by blast
qed

text \<open>
  C4 as stated fails: for a list whose calorie sum is \<open>-5\<close>, which is not greater than
  zero, the base is \<open>-5\<close> and not 1. And the guard does not keep the factor finite:
  for one item of \<open>10^-306\<close> kcal under a budget of 360 the base is that sum and the
  exact quotient is \<open>3.6 * 10^308\<close>, which no binary64 number reaches, so that the
  division in the source gives infinity.
\<close>

theorem scale_base_of_negative_sum:
  "kcal (raw_sums [nutrient_item ''ice'' ''-5kcal'' ''0g'' ''0g'' ''0g'']) = Num (- 5) \<and>
   scaleBase (kcal (raw_sums [nutrient_item ''ice'' ''-5kcal'' ''0g'' ''0g'' ''0g''])) = Num (- 5) \<and>
   scaleBase (kcal (raw_sums [nutrient_item ''ice'' ''-5kcal'' ''0g'' ''0g'' ''0g''])) \<noteq> Num 1 \<and>
   scaleFactor (Num 360) (kcal (raw_sums [nutrient_item ''salt'' ''0.000000000000000000000000000000000000000000000000000000000000000000000000000000000000000000000000000000000000000000000000000000000000000000000000000000000000000000000000000000000000000000000000000000000000000000000000000000000000000000000000000000000000000000000000000000000000000000000000000000000000000001kcal'' ''0g'' ''0g'' ''0g''])) =
     Num (360 * 10 ^ 306) \<and>
   binary64_limit \<le> 360 * 10 ^ 306"
proof -
  have i: "kcal_of (nutrient_item ''ice'' ''-5kcal'' ''0g'' ''0g'' ''0g'') = - 5"
    by (simp add: eval_item eval_parse)
  have t: "kcal_of (nutrient_item ''salt'' ''0.000000000000000000000000000000000000000000000000000000000000000000000000000000000000000000000000000000000000000000000000000000000000000000000000000000000000000000000000000000000000000000000000000000000000000000000000000000000000000000000000000000000000000000000000000000000000000000000000000000000000000001kcal'' ''0g'' ''0g'' ''0g'') = 1 / 10 ^ 306"
    by (simp add: eval_item eval_parse)
  have 1: "kcal (raw_sums [nutrient_item ''ice'' ''-5kcal'' ''0g'' ''0g'' ''0g'']) = Num (- 5)"
    by (simp add: kcal_raw_sums i)
  have 2: "scaleFactor (Num 360) (kcal (raw_sums [nutrient_item ''salt'' ''0.000000000000000000000000000000000000000000000000000000000000000000000000000000000000000000000000000000000000000000000000000000000000000000000000000000000000000000000000000000000000000000000000000000000000000000000000000000000000000000000000000000000000000000000000000000000000000000000000000000000000000001kcal'' ''0g'' ''0g'' ''0g''])) =
     Num (360 * 10 ^ 306)"
    by (simp add: kcal_raw_sums t scaleFactor_def scaleBase_def)
  have 3: "binary64_limit \<le> 360 * 10 ^ 306"
    by (simp add: binary64_limit_def)
  from 1 2 3 show ?thesis by (simp add: scaleBase_def)
qed

section \<open>Appending to the daily records\<close>

lemma append_meal_apply:
  "append_meal d m meal prev d' =
     (if d' = d then Some ((day_or_empty prev d)(m := day_or_empty prev d m @ [meal])) else prev d')"
  by (simp add: append_meal_def Let_def)

lemma append_meal_changes: "append_meal d m meal prev \<noteq> prev"
proof
  assume eq: "append_meal d m meal prev = prev"
  define day where "day = day_or_empty prev d"
  have "append_meal d m meal prev d = Some (day(m := day m @ [meal]))"
    by (simp add: append_meal_apply day_def)
  with eq have "prev d = Some (day(m := day m @ [meal]))" by simp
  then have "day_or_empty prev d = day(m := day m @ [meal])"
    by (simp add: day_or_empty_def)
  then have "day = day(m := day m @ [meal])"
    by (simp only: day_def [symmetric])
  then have "day m = (day(m := day m @ [meal])) m" by simp
  then show False by simp
qed

text \<open>
  C2. Appending a meal under a date and a meal time makes the date present; when the
  date was absent its record starts from three empty lists; the meal is added as one new
  last element of the list of its meal time; every meal recorded before is still there
  at its place; every other meal time of the date and every other date are as before.
  The handler of the extraction result writes the daily records in no other way: it
  leaves them as they are or appends one meal under the given date and the selected meal
  time.
\<close>

theorem append_meal_only_appends:
  "append_meal d m meal prev d \<noteq> None \<and>
   (prev d = None \<longrightarrow>
      append_meal d m meal prev d = Some (empty_day(m := [meal])) \<and>
      empty_day Asa = [] \<and> empty_day Hiru = [] \<and> empty_day Yoru = []) \<and>
   meals_at (append_meal d m meal prev) d m = meals_at prev d m @ [meal] \<and>
   (\<forall>i < length (meals_at prev d m). meals_at (append_meal d m meal prev) d m ! i = meals_at prev d m ! i) \<and>
   (\<forall>m'. m' \<noteq> m \<longrightarrow> meals_at (append_meal d m meal prev) d m' = meals_at prev d m') \<and>
   (\<forall>d'. d' \<noteq> d \<longrightarrow> append_meal d m meal prev d' = prev d') \<and>
   (dailyRecords (on_parsed d p st) = dailyRecords st \<or>
    (\<exists>scaled. dailyRecords (on_parsed d p st) = append_meal d (mealTime st) scaled (dailyRecords st)))"
proof -
  have 1: "append_meal d m meal prev d \<noteq> None"
    by (simp add: append_meal_apply)
  have 2: "prev d = None \<longrightarrow>
      append_meal d m meal prev d = Some (empty_day(m := [meal])) \<and>
      empty_day Asa = [] \<and> empty_day Hiru = [] \<and> empty_day Yoru = []"
    by (simp add: append_meal_apply day_or_empty_def empty_day_def)
  have 3: "meals_at (append_meal d m meal prev) d m = meals_at prev d m @ [meal]"
    by (simp add: meals_at_def append_meal_apply day_or_empty_def empty_day_def split: option.splits)
  have 4: "\<forall>i < length (meals_at prev d m). meals_at (append_meal d m meal prev) d m ! i = meals_at prev d m ! i"
    by (simp add: 3 nth_append)
  have 5: "\<forall>m'. m' \<noteq> m \<longrightarrow> meals_at (append_meal d m meal prev) d m' = meals_at prev d m'"
    by (simp add: meals_at_def append_meal_apply day_or_empty_def empty_day_def split: option.splits)
  have 6: "\<forall>d'. d' \<noteq> d \<longrightarrow> append_meal d m meal prev d' = prev d'"
    by (simp add: append_meal_apply)
  have 7: "dailyRecords (on_parsed d p st) = dailyRecords st \<or>
    (\<exists>scaled. dailyRecords (on_parsed d p st) = append_meal d (mealTime st) scaled (dailyRecords st))"
    by (cases p) (auto simp: on_parsed_def Let_def split: option.splits)
  from 1 2 3 4 5 6 7 show ?thesis by blast
qed

theorem append_meal_only_appends_witness:
  "meals_at
     (append_meal ''2024-05-01'' Hiru [nutrient_item ''egg'' ''80.0kcal'' ''6.0g'' ''5.0g'' ''0.5g'']
        (append_meal ''2024-05-01'' Hiru [nutrient_item ''rice'' ''250.0kcal'' ''4.0g'' ''0.5g'' ''55.0g''] Map.empty))
     ''2024-05-01'' Hiru =
   [[nutrient_item ''rice'' ''250.0kcal'' ''4.0g'' ''0.5g'' ''55.0g''],
    [nutrient_item ''egg'' ''80.0kcal'' ''6.0g'' ''5.0g'' ''0.5g'']] \<and>
   append_meal ''2024-05-01'' Hiru [nutrient_item ''rice'' ''250.0kcal'' ''4.0g'' ''0.5g'' ''55.0g''] Map.empty ''2024-05-01'' =
     Some (empty_day(Hiru := [[nutrient_item ''rice'' ''250.0kcal'' ''4.0g'' ''0.5g'' ''55.0g'']])) \<and>
   append_meal ''2024-05-01'' Hiru [nutrient_item ''rice'' ''250.0kcal'' ''4.0g'' ''0.5g'' ''55.0g''] Map.empty ''2024-05-02'' = None"
proof -
  let ?rice = "[nutrient_item ''rice'' ''250.0kcal'' ''4.0g'' ''0.5g'' ''55.0g'']"
  let ?egg = "[nutrient_item ''egg'' ''80.0kcal'' ''6.0g'' ''5.0g'' ''0.5g'']"
  let ?one = "append_meal ''2024-05-01'' Hiru ?rice Map.empty"
  have a: "(Map.empty :: DailyRecords) ''2024-05-01'' = None" by simp
  have b: "''2024-05-02'' \<noteq> ''2024-05-01''" by simp
  note first = append_meal_only_appends [of "''2024-05-01''" Hiru ?rice Map.empty ParsedOther undefined]
  note second = append_meal_only_appends [of "''2024-05-01''" Hiru ?egg ?one ParsedOther undefined]
  have "meals_at ?one ''2024-05-01'' Hiru = [?rice]"
    using first by (simp add: meals_at_def)
  moreover have "meals_at (append_meal ''2024-05-01'' Hiru ?egg ?one) ''2024-05-01'' Hiru =
      meals_at ?one ''2024-05-01'' Hiru @ [?egg]"
    using second by blast
  moreover have "?one ''2024-05-01'' = Some (empty_day(Hiru := [?rice]))"
    using first a by blast
  moreover have "?one ''2024-05-02'' = None"
    using first b by (metis a)
  ultimately show ?thesis by simp
qed

section \<open>The shapes of the extraction result\<close>

text \<open>
  C10, as amended. An object whose \<open>ingredients\<close> property is an array is displayed as
  that array, with the sum of the parsed calories of its items as the calorie total; any
  other object is displayed as a one-item list, with the parsed calories of that item as
  the calorie total. In both cases the items are displayed as they came, the other three
  totals stay as they were and the daily records are not written. The daily records
  change exactly when the result is an array, and then by appending the scaled list.
\<close>

theorem on_parsed_by_shape:
  "ingredients (on_parsed d (ParsedObject obj None) st) = [obj] \<and>
   totalCalories (on_parsed d (ParsedObject obj None) st) = numFromUnitString (item_calories obj) \<and>
   ingredients (on_parsed d (ParsedObject obj (Some arr)) st) = arr \<and>
   totalCalories (on_parsed d (ParsedObject obj (Some arr)) st) = Num (sum_list (map kcal_of arr)) \<and>
   (\<forall>ing. dailyRecords (on_parsed d (ParsedObject obj ing) st) = dailyRecords st \<and>
          totalProtein (on_parsed d (ParsedObject obj ing) st) = totalProtein st \<and>
          totalFat (on_parsed d (ParsedObject obj ing) st) = totalFat st \<and>
          totalCarbs (on_parsed d (ParsedObject obj ing) st) = totalCarbs st) \<and>
   on_parsed d ParsedOther st = st \<and>
   ingredients (on_parsed d (ParsedArray arr) st) =
     scaledIngredients (slotBudget (goalCalories st) (calorieSplit st) (mealTime st)) arr \<and>
   dailyRecords (on_parsed d (ParsedArray arr) st) =
     append_meal d (mealTime st)
       (scaledIngredients (slotBudget (goalCalories st) (calorieSplit st) (mealTime st)) arr)
       (dailyRecords st) \<and>
   ((dailyRecords (on_parsed d p st) \<noteq> dailyRecords st) = (\<exists>xs. p = ParsedArray xs))"
proof -
  have sum: "foldl (\<lambda>sum item. js_add sum (numFromUnitString (item_calories item))) (Num a) xs =
      Num (a + sum_list (map kcal_of xs))" for a xs
    by (induction xs arbitrary: a) (simp_all add: numFromUnitString_num_of add.assoc)
  have obj: "\<forall>ing. dailyRecords (on_parsed d (ParsedObject obj ing) st) = dailyRecords st \<and>
          totalProtein (on_parsed d (ParsedObject obj ing) st) = totalProtein st \<and>
          totalFat (on_parsed d (ParsedObject obj ing) st) = totalFat st \<and>
          totalCarbs (on_parsed d (ParsedObject obj ing) st) = totalCarbs st"
    by (simp add: on_parsed_def split: option.splits)
  have written: "(dailyRecords (on_parsed d p st) \<noteq> dailyRecords st) = (\<exists>xs. p = ParsedArray xs)"
    by (cases p) (auto simp: on_parsed_def Let_def append_meal_changes split: option.splits)
  show ?thesis
    using obj written sum [of 0 arr] by (simp add: on_parsed_def Let_def)
qed

theorem on_parsed_by_shape_witness:
  "ingredients (on_parsed ''2024-05-01'' (ParsedObject (nutrient_item ''egg'' ''80kcal'' ''6g'' ''5g'' ''0.5g'') None) initial_state) =
     [nutrient_item ''egg'' ''80kcal'' ''6g'' ''5g'' ''0.5g''] \<and>
   totalCalories (on_parsed ''2024-05-01'' (ParsedObject (nutrient_item ''egg'' ''80kcal'' ''6g'' ''5g'' ''0.5g'') None) initial_state) =
     Num 80 \<and>
   dailyRecords (on_parsed ''2024-05-01'' (ParsedObject (nutrient_item ''egg'' ''80kcal'' ''6g'' ''5g'' ''0.5g'') None) initial_state) =
     Map.empty \<and>
   dailyRecords (on_parsed ''2024-05-01'' (ParsedArray [nutrient_item ''egg'' ''80kcal'' ''6g'' ''5g'' ''0.5g'']) initial_state) \<noteq>
     Map.empty"
proof -
  let ?egg = "nutrient_item ''egg'' ''80kcal'' ''6g'' ''5g'' ''0.5g''"
  have k: "numFromUnitString (item_calories ?egg) = Num 80"
    by (simp add: nutrient_item_def numFromUnitString_def strip_units_def keep_char_def is_digit_def
        parseFloat_def split_sign_def frac_digits_def mantissa_val_def nat_of_digits_def
        digit_val_def signed_def)
  have i: "dailyRecords initial_state = Map.empty"
    by (simp add: initial_state_def)
  note obj = on_parsed_by_shape [of "''2024-05-01''" ?egg initial_state "[]" "ParsedObject ?egg None"]
  note arr = on_parsed_by_shape [of "''2024-05-01''" ?egg initial_state "[]" "ParsedArray [?egg]"]
  have "dailyRecords (on_parsed ''2024-05-01'' (ParsedArray [?egg]) initial_state) \<noteq> dailyRecords initial_state"
    using arr by blast
  moreover have "dailyRecords (on_parsed ''2024-05-01'' (ParsedObject ?egg None) initial_state) = dailyRecords initial_state"
    using obj by blast
  moreover have "ingredients (on_parsed ''2024-05-01'' (ParsedObject ?egg None) initial_state) = [?egg]"
    using obj by blast
  moreover have "totalCalories (on_parsed ''2024-05-01'' (ParsedObject ?egg None) initial_state) =
      numFromUnitString (item_calories ?egg)"
    using obj by blast
  ultimately show ?thesis by (simp add: k i)
qed

text \<open>
  C10 as stated fails: an object that carries an \<open>ingredients\<close> array is a single
  object and not an array, and what is displayed is the array, not the object as a
  one-item list; the calorie total is that of the array, 450, not that of the object, 700.
\<close>

theorem on_parsed_object_with_ingredients:
  "ingredients
     (on_parsed ''2024-05-01''
        (ParsedObject (nutrient_item ''set meal'' ''700kcal'' ''30g'' ''20g'' ''90g'')
           (Some [nutrient_item ''rice'' ''250kcal'' ''4g'' ''1g'' ''55g'',
                  nutrient_item ''fish'' ''200kcal'' ''22g'' ''12g'' ''0g'']))
        initial_state) =
     [nutrient_item ''rice'' ''250kcal'' ''4g'' ''1g'' ''55g'',
      nutrient_item ''fish'' ''200kcal'' ''22g'' ''12g'' ''0g''] \<and>
   ingredients
     (on_parsed ''2024-05-01''
        (ParsedObject (nutrient_item ''set meal'' ''700kcal'' ''30g'' ''20g'' ''90g'')
           (Some [nutrient_item ''rice'' ''250kcal'' ''4g'' ''1g'' ''55g'',
                  nutrient_item ''fish'' ''200kcal'' ''22g'' ''12g'' ''0g'']))
        initial_state) \<noteq>
     [nutrient_item ''set meal'' ''700kcal'' ''30g'' ''20g'' ''90g''] \<and>
   totalCalories
     (on_parsed ''2024-05-01''
        (ParsedObject (nutrient_item ''set meal'' ''700kcal'' ''30g'' ''20g'' ''90g'')
           (Some [nutrient_item ''rice'' ''250kcal'' ''4g'' ''1g'' ''55g'',
                  nutrient_item ''fish'' ''200kcal'' ''22g'' ''12g'' ''0g'']))
        initial_state) = Num 450"
  by (simp add: on_parsed_def nutrient_item_def numFromUnitString_def strip_units_def keep_char_def
      is_digit_def parseFloat_def split_sign_def frac_digits_def mantissa_val_def nat_of_digits_def
      digit_val_def signed_def)

section \<open>Digits and decimal numerals\<close>

lemma digit_val_digit_char: "d < 10 \<Longrightarrow> digit_val (digit_char d) = d"
  by (simp add: digit_val_def digit_char_def)

lemma is_digit_digit_char: "d < 10 \<Longrightarrow> is_digit (digit_char d)"
  by (simp add: is_digit_def digit_char_def)

lemma digit_char_0: "digit_char 0 = CHR ''0''"
  by (rule of_char_eqI [where ?'a = nat]) (simp add: digit_char_def)

lemma not_digit_chars:
  "\<not> is_digit (CHR ''.'')" "\<not> is_digit (CHR ''-'')" "\<not> is_digit (CHR ''+'')"
  by (simp_all add: is_digit_def)

lemma digits_of_nat_nonempty: "digits_of_nat n \<noteq> []"
  by (subst digits_of_nat.simps) simp

lemma digits_of_nat_length: "Suc 0 \<le> length (digits_of_nat n)"
  using digits_of_nat_nonempty [of n] by (cases "digits_of_nat n") simp_all

lemma digits_of_nat_all_digits: "list_all is_digit (digits_of_nat n)"
proof (induction n rule: digits_of_nat.induct)
  case (1 n)
  show ?case
  proof (cases "n < 10")
    case True
    then show ?thesis by (subst digits_of_nat.simps) (simp add: is_digit_digit_char)
  next
    case False
    then show ?thesis
      using 1 by (subst digits_of_nat.simps) (simp add: is_digit_digit_char)
  qed
qed

lemma nat_of_digits_empty: "nat_of_digits [] = 0"
  by (simp add: nat_of_digits_def)

lemma nat_of_digits_snoc: "nat_of_digits (ds @ [c]) = 10 * nat_of_digits ds + digit_val c"
  by (simp add: nat_of_digits_def)

lemma nat_of_digits_digits_of_nat: "nat_of_digits (digits_of_nat n) = n"
proof (induction n rule: digits_of_nat.induct)
  case (1 n)
  show ?case
  proof (cases "n < 10")
    case True
    then show ?thesis
      by (subst digits_of_nat.simps) (simp add: nat_of_digits_def digit_val_digit_char)
  next
    case False
    then show ?thesis
      using 1 by (subst digits_of_nat.simps) (simp add: nat_of_digits_snoc digit_val_digit_char)
  qed
qed

lemma takeWhile_digits:
  "list_all is_digit ds \<Longrightarrow> \<not> is_digit c \<Longrightarrow> takeWhile is_digit (ds @ c # r) = ds"
  by (induction ds) simp_all

lemma dropWhile_digits:
  "list_all is_digit ds \<Longrightarrow> \<not> is_digit c \<Longrightarrow> dropWhile is_digit (ds @ c # r) = c # r"
  by (induction ds) simp_all

lemma takeWhile_all_digits: "list_all is_digit ds \<Longrightarrow> takeWhile is_digit ds = ds"
  by (induction ds) simp_all

lemma dropWhile_all_digits: "list_all is_digit ds \<Longrightarrow> dropWhile is_digit ds = []"
  by (induction ds) simp_all

lemma takeWhile_no_digit: "\<forall>c \<in> set r. \<not> is_digit c \<Longrightarrow> takeWhile is_digit r = []"
  by (cases r) simp_all

lemma split_sign_digits:
  "ds \<noteq> [] \<Longrightarrow> list_all is_digit ds \<Longrightarrow> split_sign (ds @ r) = (False, ds @ r)"
  by (cases ds) (auto simp: split_sign_def not_digit_chars)

lemma split_sign_minus: "split_sign (CHR ''-'' # r) = (True, r)"
  by (simp add: split_sign_def)

lemma split_sign_subset: "set (snd (split_sign s)) \<subseteq> set s"
  by (cases s) (auto simp: split_sign_def)

lemma keep_char_digits: "list_all is_digit ds \<Longrightarrow> filter keep_char ds = ds"
  by (induction ds) (simp_all add: keep_char_def)

text \<open>A signed numeral \<open>ds.fs\<close> followed by characters that the filter deletes.\<close>

lemma parseFloat_numeral:
  assumes "ds \<noteq> []" and "list_all is_digit ds" and "list_all is_digit fs"
  shows "parseFloat ((if negative then ''-'' else []) @ ds @ CHR ''.'' # fs) =
           Num (signed negative (mantissa_val ds fs))"
proof -
  let ?r = "ds @ CHR ''.'' # fs"
  have sp: "split_sign ((if negative then ''-'' else []) @ ?r) = (negative, ?r)"
    using split_sign_digits [OF assms(1,2), of "CHR ''.'' # fs"]
    by (simp add: split_sign_minus)
  have tw: "takeWhile is_digit ?r = ds"
    by (rule takeWhile_digits [OF assms(2)]) (simp add: not_digit_chars)
  have dw: "dropWhile is_digit ?r = CHR ''.'' # fs"
    by (rule dropWhile_digits [OF assms(2)]) (simp add: not_digit_chars)
  show ?thesis
    using assms(1)
    by (simp add: parseFloat_def sp tw dw frac_digits_def takeWhile_all_digits [OF assms(3)])
qed

lemma parseFloat_digits:
  assumes "ds \<noteq> []" and "list_all is_digit ds"
  shows "parseFloat ds = Num (of_nat (nat_of_digits ds))"
proof -
  have sp: "split_sign ds = (False, ds)"
    using split_sign_digits [OF assms, of "[]"] by simp
  show ?thesis
    using assms(1)
    by (simp add: parseFloat_def sp takeWhile_all_digits [OF assms(2)]
        dropWhile_all_digits [OF assms(2)] frac_digits_def mantissa_val_def signed_def
        nat_of_digits_empty)
qed

lemma parseFloat_signed_digits:
  assumes "ds \<noteq> []" and "list_all is_digit ds"
  shows "parseFloat ((if negative then ''-'' else []) @ ds) =
           Num (signed negative (of_nat (nat_of_digits ds)))"
proof -
  have sp: "split_sign ((if negative then ''-'' else []) @ ds) = (negative, ds)"
    using split_sign_digits [OF assms, of "[]"] by (simp add: split_sign_minus)
  show ?thesis
    using assms(1)
    by (simp add: parseFloat_def sp takeWhile_all_digits [OF assms(2)]
        dropWhile_all_digits [OF assms(2)] frac_digits_def mantissa_val_def nat_of_digits_empty)
qed

lemma parseFloat_no_digit:
  assumes "\<forall>c \<in> set s. \<not> is_digit c"
  shows "parseFloat s = NaN"
proof -
  obtain negative r where sp: "split_sign s = (negative, r)"
    by (cases "split_sign s") simp
  have r: "\<forall>c \<in> set r. \<not> is_digit c"
    using assms split_sign_subset [of s] sp by auto
  have ip: "takeWhile is_digit r = []"
    by (rule takeWhile_no_digit [OF r])
  have dw: "dropWhile is_digit r = r"
    using r by (cases r) simp_all
  have fp: "frac_digits r = []"
  proof (cases r)
    case Nil
    then show ?thesis by (simp add: frac_digits_def)
  next
    case (Cons c r')
    then have "\<forall>c \<in> set r'. \<not> is_digit c" using r by simp
    then show ?thesis using Cons by (simp add: frac_digits_def takeWhile_no_digit)
  qed
  show ?thesis
    by (simp add: parseFloat_def sp ip dw fp)
qed

section \<open>The unit parser\<close>

text \<open>
  C3, as amended. The parser returns 0 for an absent and for an empty input. Otherwise it
  first deletes every character other than a digit, a point and a minus sign, joining
  what is left, and then converts the decimal literal at the head of the remainder; it
  returns 0 when there is none. The result is never not-a-number, and the function is
  total. In particular an input without a digit gives 0; a numeral with an optional minus
  sign and a point, followed by characters that are deleted, is converted as the numeral
  alone; a whole numeral of at most 15 digits, which binary64 holds exactly, gives its
  value with its sign; and two digit runs separated by deleted characters are read as
  one number.
\<close>

theorem numFromUnitString_filters_then_parses:
  "numFromUnitString None = Num 0 \<and>
   numFromUnitString (Some []) = Num 0 \<and>
   \<not> isNaN (numFromUnitString v) \<and>
   (s \<noteq> [] \<longrightarrow>
      numFromUnitString (Some s) =
        (if isNaN (parseFloat (filter keep_char s)) then Num 0 else parseFloat (filter keep_char s))) \<and>
   ((\<forall>c \<in> set s. \<not> is_digit c) \<longrightarrow> numFromUnitString (Some s) = Num 0) \<and>
   (ds \<noteq> [] \<and> list_all is_digit ds \<and> list_all is_digit fs \<and> filter keep_char w = [] \<longrightarrow>
      numFromUnitString (Some ((if negative then ''-'' else []) @ ds @ CHR ''.'' # fs @ w)) =
        parseFloat ((if negative then ''-'' else []) @ ds @ CHR ''.'' # fs) \<and>
      \<not> isNaN (parseFloat ((if negative then ''-'' else []) @ ds @ CHR ''.'' # fs))) \<and>
   (ds \<noteq> [] \<and> list_all is_digit ds \<and> length ds \<le> 15 \<and> filter keep_char w = [] \<longrightarrow>
      numFromUnitString (Some ((if negative then ''-'' else []) @ ds @ w)) =
        Num (signed negative (of_nat (nat_of_digits ds)))) \<and>
   (ds \<noteq> [] \<and> list_all is_digit ds \<and> list_all is_digit ds' \<and> filter keep_char u = [] \<and> filter keep_char w = [] \<longrightarrow>
      numFromUnitString (Some (ds @ u @ ds' @ w)) = numFromUnitString (Some (ds @ ds')) \<and>
      (length (ds @ ds') \<le> 15 \<longrightarrow>
         numFromUnitString (Some (ds @ u @ ds' @ w)) = Num (of_nat (nat_of_digits (ds @ ds')))))"
proof -
  have none: "numFromUnitString None = Num 0" "numFromUnitString (Some []) = Num 0"
    by (simp_all add: numFromUnitString_def)
  have shape: "s \<noteq> [] \<longrightarrow>
      numFromUnitString (Some s) =
        (if isNaN (parseFloat (filter keep_char s)) then Num 0 else parseFloat (filter keep_char s))"
    by (simp add: numFromUnitString_def strip_units_def Let_def)
  have nodigit: "(\<forall>c \<in> set s. \<not> is_digit c) \<longrightarrow> numFromUnitString (Some s) = Num 0"
  proof
    assume a: "\<forall>c \<in> set s. \<not> is_digit c"
    then have "\<forall>c \<in> set (filter keep_char s). \<not> is_digit c" by simp
    then have "parseFloat (strip_units s) = NaN"
      unfolding strip_units_def by (rule parseFloat_no_digit)
    then show "numFromUnitString (Some s) = Num 0"
      by (simp add: numFromUnitString_def)
  qed
  have numeral: "ds \<noteq> [] \<and> list_all is_digit ds \<and> list_all is_digit fs \<and> filter keep_char w = [] \<longrightarrow>
      numFromUnitString (Some ((if negative then ''-'' else []) @ ds @ CHR ''.'' # fs @ w)) =
        parseFloat ((if negative then ''-'' else []) @ ds @ CHR ''.'' # fs) \<and>
      \<not> isNaN (parseFloat ((if negative then ''-'' else []) @ ds @ CHR ''.'' # fs))"
  proof
    assume a: "ds \<noteq> [] \<and> list_all is_digit ds \<and> list_all is_digit fs \<and> filter keep_char w = []"
    have "strip_units ((if negative then ''-'' else []) @ ds @ CHR ''.'' # fs @ w) =
        (if negative then ''-'' else []) @ ds @ CHR ''.'' # fs"
      using a by (simp add: strip_units_def keep_char_digits) (simp add: keep_char_def)
    then show "numFromUnitString (Some ((if negative then ''-'' else []) @ ds @ CHR ''.'' # fs @ w)) =
        parseFloat ((if negative then ''-'' else []) @ ds @ CHR ''.'' # fs) \<and>
      \<not> isNaN (parseFloat ((if negative then ''-'' else []) @ ds @ CHR ''.'' # fs))"
      using a by (simp add: numFromUnitString_def parseFloat_numeral)
  qed
  have whole: "ds \<noteq> [] \<and> list_all is_digit ds \<and> length ds \<le> 15 \<and> filter keep_char w = [] \<longrightarrow>
      numFromUnitString (Some ((if negative then ''-'' else []) @ ds @ w)) =
        Num (signed negative (of_nat (nat_of_digits ds)))"
  proof
    assume a: "ds \<noteq> [] \<and> list_all is_digit ds \<and> length ds \<le> 15 \<and> filter keep_char w = []"
    have "strip_units ((if negative then ''-'' else []) @ ds @ w) = (if negative then ''-'' else []) @ ds"
      using a by (simp add: strip_units_def keep_char_digits) (simp add: keep_char_def)
    then show "numFromUnitString (Some ((if negative then ''-'' else []) @ ds @ w)) =
        Num (signed negative (of_nat (nat_of_digits ds)))"
      using a by (simp add: numFromUnitString_def parseFloat_signed_digits)
  qed
  have joined: "ds \<noteq> [] \<and> list_all is_digit ds \<and> list_all is_digit ds' \<and> filter keep_char u = [] \<and> filter keep_char w = [] \<longrightarrow>
      numFromUnitString (Some (ds @ u @ ds' @ w)) = numFromUnitString (Some (ds @ ds')) \<and>
      (length (ds @ ds') \<le> 15 \<longrightarrow>
         numFromUnitString (Some (ds @ u @ ds' @ w)) = Num (of_nat (nat_of_digits (ds @ ds'))))"
  proof
    assume a: "ds \<noteq> [] \<and> list_all is_digit ds \<and> list_all is_digit ds' \<and> filter keep_char u = [] \<and> filter keep_char w = []"
    have f: "strip_units (ds @ u @ ds' @ w) = ds @ ds'" "strip_units (ds @ ds') = ds @ ds'"
      using a by (simp_all add: strip_units_def keep_char_digits)
    have p: "parseFloat (ds @ ds') = Num (of_nat (nat_of_digits (ds @ ds')))"
      using a by (intro parseFloat_digits) simp_all
    show "numFromUnitString (Some (ds @ u @ ds' @ w)) = numFromUnitString (Some (ds @ ds')) \<and>
      (length (ds @ ds') \<le> 15 \<longrightarrow>
         numFromUnitString (Some (ds @ u @ ds' @ w)) = Num (of_nat (nat_of_digits (ds @ ds'))))"
      using a by (simp add: numFromUnitString_def f p)
  qed
  from none numFromUnitString_not_NaN [of v] shape nodigit numeral whole joined show ?thesis
    by (intro conjI) assumption+
qed

theorem numFromUnitString_filters_then_parses_witness:
  "numFromUnitString (Some ''kcal'') = Num 0 \<and>
   numFromUnitString (Some ''-12.5 g'') = Num (- (25 / 2)) \<and>
   numFromUnitString (Some ''-40 kcal'') = Num (- 40) \<and>
   numFromUnitString (Some ''100g (20%)'') = Num 10020"
proof -
  have 1: "\<forall>c \<in> set ''kcal''. \<not> is_digit c" by (simp add: is_digit_def)
  have 2: "''12'' \<noteq> [] \<and> list_all is_digit ''12'' \<and> list_all is_digit ''5'' \<and> filter keep_char '' g'' = []"
    by (simp add: is_digit_def keep_char_def)
  have 3: "''40'' \<noteq> [] \<and> list_all is_digit ''40'' \<and> length ''40'' \<le> 15 \<and> filter keep_char '' kcal'' = []"
    by (simp add: is_digit_def keep_char_def)
  have 4: "''100'' \<noteq> [] \<and> list_all is_digit ''100'' \<and> list_all is_digit ''20'' \<and>
      filter keep_char ''g ('' = [] \<and> filter keep_char ''%)'' = []"
    by (simp add: is_digit_def keep_char_def)
  have 5: "length (''100'' @ ''20'') \<le> 15" by simp
  note t1 = numFromUnitString_filters_then_parses [of None "''kcal''" "''12''" "''5''" "'' g''" True "[]" "[]"]
  note t2 = numFromUnitString_filters_then_parses [of None "''kcal''" "''40''" "[]" "'' kcal''" True "[]" "[]"]
  note t3 = numFromUnitString_filters_then_parses [of None "''kcal''" "''100''" "[]" "''%)''" False "''20''" "''g (''"]
  have a: "numFromUnitString (Some ''kcal'') = Num 0"
    using t1 1 by blast
  have "numFromUnitString (Some ((if True then ''-'' else []) @ ''12'' @ CHR ''.'' # ''5'' @ '' g'')) =
      parseFloat ((if True then ''-'' else []) @ ''12'' @ CHR ''.'' # ''5'')"
    using t1 2 by blast
  then have b: "numFromUnitString (Some ''-12.5 g'') = Num (- (25 / 2))"
    by (simp add: eval_parse)
  have "numFromUnitString (Some ((if True then ''-'' else []) @ ''40'' @ '' kcal'')) =
      Num (signed True (of_nat (nat_of_digits ''40'')))"
    using t2 3 by blast
  then have c: "numFromUnitString (Some ''-40 kcal'') = Num (- 40)"
    by (simp add: signed_def nat_of_digits_def digit_val_def)
  have "numFromUnitString (Some (''100'' @ ''g ('' @ ''20'' @ ''%)'')) = Num (of_nat (nat_of_digits (''100'' @ ''20'')))"
    using t3 4 5 by blast
  then have e: "numFromUnitString (Some ''100g (20%)'') = Num 10020"
    by (simp add: nat_of_digits_def digit_val_def)
  from a b c e show ?thesis by (intro conjI)
qed

text \<open>
  C3 as stated fails: the first contiguous run of digits of \<open>12abc34\<close> is \<open>12\<close>, and the
  parser returns 1234.
\<close>

theorem numFromUnitString_joins_digit_runs:
  "first_run ''12abc34'' = ''12'' \<and>
   spec_parseMagnitude (Some ''12abc34'') = Num 12 \<and>
   numFromUnitString (Some ''12abc34'') = Num 1234 \<and>
   numFromUnitString (Some ''12abc34'') \<noteq> spec_parseMagnitude (Some ''12abc34'')"
  by (simp add: numFromUnitString_def spec_parseMagnitude_def number_head_def strip_units_def
      keep_char_def is_digit_def parseFloat_def split_sign_def frac_digits_def mantissa_val_def
      nat_of_digits_def digit_val_def signed_def)

section \<open>Printing with one decimal and reading it back\<close>

lemma pad_two_digits:
  "pad_zeros (Suc (Suc 0)) (digits_of_nat k) = digits_of_nat (k div 10) @ [digit_char (k mod 10)]"
proof (cases "k < 10")
  case True
  then have "digits_of_nat k = [digit_char k]" by (subst digits_of_nat.simps) simp
  moreover have "digits_of_nat (k div 10) = ''0''"
    using True by (subst digits_of_nat.simps) (simp add: digit_char_0)
  ultimately show ?thesis using True by (simp add: pad_zeros_def)
next
  case False
  then have e: "digits_of_nat k = digits_of_nat (k div 10) @ [digit_char (k mod 10)]"
    by (subst digits_of_nat.simps) simp
  have "Suc 0 \<le> length (digits_of_nat (k div 10))" by (rule digits_of_nat_length)
  then have "2 \<le> length (digits_of_nat k)" by (simp add: e)
  then show ?thesis by (simp add: pad_zeros_def e)
qed

lemma fixed_notation_decimal1: "fixed_notation x (Suc 0) = decimal1 x"
  by (simp add: fixed_notation_def Let_def pad_two_digits decimal1_def one_decimal_def)

lemma toFixed_decimal1: "\<bar>x\<bar> < 10 ^ 21 \<Longrightarrow> toFixed x (Suc 0) = decimal1 x"
  by (simp add: toFixed_def fixed_notation_decimal1)

lemma decimal1_zero: "decimal1 0 = ''0.0''"
proof -
  have "digits_of_nat 0 = ''0''"
    by (subst digits_of_nat.simps) (simp add: digit_char_0)
  then show ?thesis
    by (simp add: decimal1_def one_decimal_def digit_char_0)
qed

lemma toFixedSafe_decimal1: "in_fixed_range n \<Longrightarrow> toFixedSafe n (Suc 0) = decimal1 (num_of n)"
  by (cases n) (simp_all add: toFixedSafe_def in_fixed_range_def num_of_def toFixed_decimal1 decimal1_zero)

lemma one_decimal_nonempty: "one_decimal negative a b \<noteq> []"
  by (simp add: one_decimal_def)

lemma mantissa_one_decimal:
  "b < 10 \<Longrightarrow> mantissa_val (digits_of_nat a) [digit_char b] = of_nat a + of_nat b / 10"
  using nat_of_digits_snoc [of "[]" "digit_char b"]
  by (simp add: mantissa_val_def nat_of_digits_digits_of_nat nat_of_digits_empty digit_val_digit_char)

lemma one_decimal_numeral:
  "one_decimal negative a b = (if negative then ''-'' else []) @ digits_of_nat a @ CHR ''.'' # [digit_char b]"
  by (simp add: one_decimal_def)

lemma parseFloat_one_decimal:
  assumes "b < 10"
  shows "parseFloat (one_decimal negative a b) = Num (signed negative (of_nat a + of_nat b / 10))"
  unfolding one_decimal_numeral
  using assms
  by (subst parseFloat_numeral)
     (simp_all add: digits_of_nat_nonempty digits_of_nat_all_digits is_digit_digit_char
        mantissa_one_decimal)

lemma js_Number_one_decimal:
  assumes "b < 10"
  shows "js_Number (one_decimal negative a b) = Num (signed negative (of_nat a + of_nat b / 10))"
proof -
  let ?ds = "digits_of_nat a"
  let ?r = "?ds @ CHR ''.'' # [digit_char b]"
  have sp: "split_sign (one_decimal negative a b) = (negative, ?r)"
    using split_sign_digits [OF digits_of_nat_nonempty digits_of_nat_all_digits, of a "CHR ''.'' # [digit_char b]"]
    by (simp add: one_decimal_def split_sign_minus)
  have tw: "takeWhile is_digit ?r = ?ds"
    by (rule takeWhile_digits [OF digits_of_nat_all_digits]) (simp add: not_digit_chars)
  have dw: "dropWhile is_digit ?r = CHR ''.'' # [digit_char b]"
    by (rule dropWhile_digits [OF digits_of_nat_all_digits]) (simp add: not_digit_chars)
  show ?thesis
    using assms
    by (simp add: js_Number_def one_decimal_nonempty sp tw dw frac_digits_def is_digit_digit_char
        exponent_part_def digits_of_nat_nonempty mantissa_one_decimal)
qed

lemma strip_units_one_decimal:
  assumes "b < 10" and "filter keep_char u = []"
  shows "strip_units (one_decimal negative a b @ u) = one_decimal negative a b"
  using assms
  by (simp add: strip_units_def one_decimal_def keep_char_digits [OF digits_of_nat_all_digits]
      keep_char_def is_digit_digit_char)

lemma numFromUnitString_one_decimal:
  assumes "b < 10" and "filter keep_char u = []"
  shows "numFromUnitString (Some (one_decimal negative a b @ u)) =
           Num (signed negative (of_nat a + of_nat b / 10))"
  by (simp add: numFromUnitString_def strip_units_one_decimal [OF assms]
      parseFloat_one_decimal [OF assms(1)] one_decimal_nonempty)

lemma tenths_div_mod: "(of_nat (k div 10) :: rat) + of_nat (k mod 10) / 10 = of_nat k / 10"
proof -
  have "(of_nat k :: rat) = of_nat (10 * (k div 10) + k mod 10)" by simp
  also have "\<dots> = 10 * of_nat (k div 10) + of_nat (k mod 10)"
    by (simp only: of_nat_add of_nat_mult of_nat_numeral)
  finally show ?thesis by simp
qed

lemma js_Number_decimal1: "js_Number (decimal1 x) = Num (round_tenths x)"
  by (simp add: decimal1_def js_Number_one_decimal tenths_div_mod round_tenths_def)

lemma numFromUnitString_decimal1:
  "filter keep_char u = [] \<Longrightarrow> numFromUnitString (Some (decimal1 x @ u)) = Num (round_tenths x)"
  by (simp add: decimal1_def numFromUnitString_one_decimal tenths_div_mod round_tenths_def)

lemma unit_suffixes: "filter keep_char ''kcal'' = []" "filter keep_char ''g'' = []"
  by (simp_all add: keep_char_def is_digit_def)

lemma round_tenths_zero: "round_tenths 0 = 0"
  by (simp add: round_tenths_def signed_def)

text \<open>The displayed value of a number in the fixed range is the number rounded to tenths.\<close>

lemma js_Number_toFixedSafe:
  "in_fixed_range n \<Longrightarrow> js_Number (toFixedSafe n (Suc 0)) = Num (round_tenths (num_of n))"
  by (simp add: toFixedSafe_decimal1 js_Number_decimal1)

lemma numFromUnitString_toFixedSafe:
  "in_fixed_range n \<Longrightarrow> filter keep_char u = [] \<Longrightarrow>
     numFromUnitString (Some (toFixedSafe n (Suc 0) @ u)) = Num (round_tenths (num_of n))"
  by (simp add: toFixedSafe_decimal1 numFromUnitString_decimal1)

lemma round_tenths_close: "\<bar>round_tenths x - x\<bar> \<le> 1 / 20"
proof -
  define y where "y = \<bar>x\<bar> * 10 + 1 / 2"
  define f where "f = (of_int \<lfloor>y\<rfloor> :: rat)"
  have y0: "0 \<le> y" by (simp add: y_def)
  then have f0: "0 \<le> \<lfloor>y\<rfloor>" by simp
  have k: "(of_nat (nat \<lfloor>y\<rfloor>) :: rat) = f"
    using f0 by (simp add: f_def)
  have lo: "f \<le> y" and hi: "y < f + 1"
    unfolding f_def by linarith+
  have ax: "\<bar>x\<bar> = (y - 1 / 2) / 10" by (simp add: y_def)
  have "\<bar>f / 10 - (y - 1 / 2) / 10\<bar> \<le> 1 / 20"
    using lo hi by (simp add: abs_le_iff field_simps)
  then have "\<bar>f / 10 - \<bar>x\<bar>\<bar> \<le> 1 / 20"
    by (simp only: ax)
  then show ?thesis
    unfolding round_tenths_def y_def [symmetric] k signed_def
    by (cases "x < 0") (auto simp: abs_if split: if_splits)
qed

lemma floor_plus_half: "\<lfloor>(of_int m :: rat) + 1 / 2\<rfloor> = m"
  by (rule floor_unique) simp_all

lemma round_tenths_of_int: "round_tenths (of_int n / 10) = of_int n / 10"
proof -
  have a: "\<bar>(of_int n :: rat) / 10\<bar> * 10 + 1 / 2 = of_int \<bar>n\<bar> + 1 / 2"
    by simp
  have k: "(of_nat (nat \<lfloor>\<bar>(of_int n :: rat) / 10\<bar> * 10 + 1 / 2\<rfloor>) :: rat) = of_int \<bar>n\<bar>"
    by (simp only: a floor_plus_half)
  show ?thesis
    unfolding round_tenths_def k signed_def
    by (cases "n < 0") (simp_all add: field_simps)
qed

lemma tenths_iff: "tenths x \<longleftrightarrow> (\<exists>n. x = of_int n / 10)"
proof
  assume "tenths x"
  then have "\<exists>n. x * 10 = of_int n" by (simp add: tenths_def)
  then obtain n where "x * 10 = of_int n" ..
  then have "x = of_int n / 10" by simp
  then show "\<exists>n. x = of_int n / 10" ..
next
  assume "\<exists>n. x = of_int n / 10"
  then obtain n where x: "x = of_int n / 10" ..
  have "x * 10 = of_int n" by (simp add: x)
  then have "\<exists>n. x * 10 = of_int n" ..
  then show "tenths x" by (simp add: tenths_def)
qed

lemma round_tenths_tenths: "tenths x \<Longrightarrow> round_tenths x = x"
proof -
  assume "tenths x"
  then obtain n where "x = of_int n / 10"
    using tenths_iff by blast
  then show ?thesis by (simp only: round_tenths_of_int)
qed

lemma tenths_round_tenths: "tenths (round_tenths x)"
proof -
  have "round_tenths x = of_int (if x < 0 then - \<lfloor>\<bar>x\<bar> * 10 + 1 / 2\<rfloor> else \<lfloor>\<bar>x\<bar> * 10 + 1 / 2\<rfloor>) / 10"
    by (simp add: round_tenths_def signed_def)
  then show ?thesis unfolding tenths_iff ..
qed

lemma tenths_add: "tenths a \<Longrightarrow> tenths b \<Longrightarrow> tenths (a + b)"
proof -
  assume "tenths a" and "tenths b"
  then obtain m n where "a = of_int m / 10" "b = of_int n / 10"
    by (auto simp: tenths_iff)
  then have "a + b = of_int (m + n) / 10" by (simp add: add_divide_distrib)
  then show ?thesis unfolding tenths_iff ..
qed

lemma tenths_0: "tenths 0"
  by (simp add: tenths_def)

lemma tenths_sum_list: "list_all (\<lambda>x. tenths (f x)) xs \<Longrightarrow> tenths (sum_list (map f xs))"
  by (induction xs) (simp_all add: tenths_0 tenths_add)

lemma tenths_of_nat_mult: "tenths x \<Longrightarrow> tenths (of_nat n * x)"
proof -
  assume "tenths x"
  then obtain m where "x = of_int m / 10" by (auto simp: tenths_iff)
  then have "of_nat n * x = of_int (int n * m) / 10" by simp
  then show ?thesis unfolding tenths_iff ..
qed

section \<open>Evaluating numerals\<close>

lemma floor_rat_numeral_divide: "\<lfloor>(numeral a :: rat) / numeral b\<rfloor> = numeral a div numeral b"
  using floor_divide_of_int_eq [of "numeral a" "numeral b", where ?'a = rat] by simp

lemma digit_char_numerals:
  "digit_char 0 = CHR ''0''" "digit_char 1 = CHR ''1''" "digit_char (Suc 0) = CHR ''1''"
  "digit_char 2 = CHR ''2''" "digit_char 3 = CHR ''3''" "digit_char 4 = CHR ''4''"
  "digit_char 5 = CHR ''5''" "digit_char 6 = CHR ''6''" "digit_char 7 = CHR ''7''"
  "digit_char 8 = CHR ''8''" "digit_char 9 = CHR ''9''"
  by (rule of_char_eqI [where ?'a = nat], simp add: digit_char_def)+

lemma digits_of_nat_numeral:
  "digits_of_nat (numeral k) =
     (if (numeral k :: nat) < 10 then [digit_char (numeral k)]
      else digits_of_nat (numeral k div 10) @ [digit_char (numeral k mod 10)])"
  by (rule digits_of_nat.simps)

lemma digits_of_nat_small:
  "digits_of_nat 0 = ''0''" "digits_of_nat 1 = ''1''" "digits_of_nat (Suc 0) = ''1''"
  by (subst digits_of_nat.simps, simp add: digit_char_numerals)+

lemmas eval_digits = digits_of_nat_numeral digits_of_nat_small digit_char_numerals

lemmas eval_decimal1 = decimal1_def one_decimal_def floor_rat_numeral_divide eval_digits

lemma toFixed_ten_to_22: "toFixed 10000000000000000000000 1 = ''1e+22''"
proof -
  have d: "digits_of_nat 10000000000000000000000 = ''10000000000000000000000''"
    by (simp add: eval_digits)
  have e: "digits_of_nat 22 = ''22''"
    by (simp add: eval_digits)
  have l: "length ''10000000000000000000000'' - 1 = (22 :: nat)"
    by simp
  have s: "strip_trailing_zeros (take 17 ''10000000000000000000000'') = ''1''"
    by (simp add: strip_trailing_zeros_def)
  have "exponent_notation 10000000000000000000000 = ''1e+22''"
    unfolding exponent_notation_def Let_def
    by (simp only: floor_numeral abs_numeral nat_numeral d l e s) simp
  then show ?thesis by (simp add: toFixed_def)
qed

lemma js_Number_1e22: "js_Number ''1e+22'' = Num 10000000000000000000000"
  by (simp add: js_Number_def exponent_part_def eval_parse)

section \<open>Totals of a date, flattened\<close>

lemma foldl_meals:
  "foldl (\<lambda>t meal. foldl add_item t meal) t meals = foldl add_item t (concat meals)"
  by (induction meals arbitrary: t) simp_all

lemma foldl_meal_times:
  "foldl (\<lambda>t mealTimes. foldl (\<lambda>t meal. foldl add_item t meal) t mealTimes) t slots =
     foldl add_item t (concat (concat slots))"
  by (induction slots arbitrary: t) (simp_all add: foldl_meals)

lemma round_totals_zero: "round_totals zero_totals = zero_totals"
proof -
  have "in_fixed_range (Num 0)" by (simp add: in_fixed_range_def)
  then have "js_Number (toFixedSafe (Num 0) (Suc 0)) = Num 0"
    by (simp add: js_Number_toFixedSafe num_of_def round_tenths_zero)
  then show ?thesis by (simp add: round_totals_def zero_totals_def)
qed

lemma kcal_round_totals: "kcal (round_totals t) = js_Number (toFixedSafe (kcal t) (Suc 0))"
  by (simp add: round_totals_def)

lemma exact_sums_Nil: "exact_sums [] = zero_totals"
  by (simp add: exact_sums_def fin_totals_def zero_totals_def)

lemma getTotalForDate_exact: "getTotalForDate ledger d = round_totals (exact_sums (all_items ledger d))"
proof (cases "ledger d")
  case None
  then show ?thesis
    using round_totals_zero by (simp add: getTotalForDate_def all_items_def exact_sums_Nil zero_totals_def)
next
  case (Some r)
  then show ?thesis
    using raw_sums_exact [of "concat (concat (object_values r))"]
    by (simp add: getTotalForDate_def all_items_def foldl_meal_times raw_sums_def)
qed

lemma exact_sums_append:
  "exact_sums (xs @ ys) =
     fin_totals (num_of (kcal (exact_sums xs)) + num_of (kcal (exact_sums ys)))
       (num_of (protein (exact_sums xs)) + num_of (protein (exact_sums ys)))
       (num_of (fat (exact_sums xs)) + num_of (fat (exact_sums ys)))
       (num_of (carbs (exact_sums xs)) + num_of (carbs (exact_sums ys)))"
  by (simp add: exact_sums_def fin_totals_def num_of_def)

lemma all_items_append_meal:
  "exact_sums (all_items (append_meal d m meal ledger) d) = exact_sums (all_items ledger d @ meal)"
proof -
  define day where "day = day_or_empty ledger d"
  have old: "all_items ledger d = concat (day Asa) @ concat (day Hiru) @ concat (day Yoru)"
    by (simp add: all_items_def day_def day_or_empty_def empty_day_def object_values_def
        split: option.splits)
  have new: "all_items (append_meal d m meal ledger) d =
      concat ((day(m := day m @ [meal])) Asa) @ concat ((day(m := day m @ [meal])) Hiru)
        @ concat ((day(m := day m @ [meal])) Yoru)"
    by (simp add: all_items_def append_meal_apply day_def object_values_def)
  show ?thesis
    unfolding old new by (cases m) (simp_all add: exact_sums_def ac_simps)
qed



lemma all_items_first_meal: "all_items (append_meal d m meal Map.empty) d = meal"
  by (cases m) (simp_all add: all_items_def append_meal_apply day_or_empty_def empty_day_def object_values_def)

section \<open>The items of a scaled list\<close>

lemma scale_item_fields:
  "item_name (scale_item factor item) = item_name item"
  "item_quantity (scale_item factor item) = item_quantity item"
  "item_weight (scale_item factor item) = item_weight item"
  "item_calories (scale_item factor item) =
     Some (toFixedSafe (js_mul (numFromUnitString (item_calories item)) factor) 1 @ ''kcal'')"
  "item_protein (scale_item factor item) =
     Some (toFixedSafe (js_mul (numFromUnitString (item_protein item)) factor) 1 @ ''g'')"
  "item_fat (scale_item factor item) =
     Some (toFixedSafe (js_mul (numFromUnitString (item_fat item)) factor) 1 @ ''g'')"
  "item_carbohydrate (scale_item factor item) =
     Some (toFixedSafe (js_mul (numFromUnitString (item_carbohydrate item)) factor) 1 @ ''g'')"
  by (simp_all add: scale_item_def Let_def)

text \<open>
  In the fixed range the magnitude that is read back from a scaled item is the product
  rounded to tenths.
\<close>

lemma scale_item_magnitudes:
  "in_fixed_range (js_mul (Num (kcal_of item)) factor) \<Longrightarrow>
     kcal_of (scale_item factor item) = round_tenths (num_of (js_mul (Num (kcal_of item)) factor))"
  "in_fixed_range (js_mul (Num (protein_of item)) factor) \<Longrightarrow>
     protein_of (scale_item factor item) = round_tenths (num_of (js_mul (Num (protein_of item)) factor))"
  "in_fixed_range (js_mul (Num (fat_of item)) factor) \<Longrightarrow>
     fat_of (scale_item factor item) = round_tenths (num_of (js_mul (Num (fat_of item)) factor))"
  "in_fixed_range (js_mul (Num (carb_of item)) factor) \<Longrightarrow>
     carb_of (scale_item factor item) = round_tenths (num_of (js_mul (Num (carb_of item)) factor))"
proof -
  have k: "num_of (numFromUnitString (Some (toFixedSafe n (Suc 0) @ u))) = round_tenths (num_of n)"
    if "in_fixed_range n" and "filter keep_char u = []" for n u
    using numFromUnitString_toFixedSafe [OF that] by (simp add: num_of_def)
  show "in_fixed_range (js_mul (Num (kcal_of item)) factor) \<Longrightarrow>
     kcal_of (scale_item factor item) = round_tenths (num_of (js_mul (Num (kcal_of item)) factor))"
    using k [OF _ unit_suffixes(1)]
    by (simp add: kcal_of_def [of "scale_item factor item"] scale_item_fields numFromUnitString_num_of)
  show "in_fixed_range (js_mul (Num (protein_of item)) factor) \<Longrightarrow>
     protein_of (scale_item factor item) = round_tenths (num_of (js_mul (Num (protein_of item)) factor))"
    using k [OF _ unit_suffixes(2)]
    by (simp add: protein_of_def [of "scale_item factor item"] scale_item_fields numFromUnitString_num_of)
  show "in_fixed_range (js_mul (Num (fat_of item)) factor) \<Longrightarrow>
     fat_of (scale_item factor item) = round_tenths (num_of (js_mul (Num (fat_of item)) factor))"
    using k [OF _ unit_suffixes(2)]
    by (simp add: fat_of_def [of "scale_item factor item"] scale_item_fields numFromUnitString_num_of)
  show "in_fixed_range (js_mul (Num (carb_of item)) factor) \<Longrightarrow>
     carb_of (scale_item factor item) = round_tenths (num_of (js_mul (Num (carb_of item)) factor))"
    using k [OF _ unit_suffixes(2)]
    by (simp add: carb_of_def [of "scale_item factor item"] scale_item_fields numFromUnitString_num_of)
qed

text \<open>Hence every item that the scaler produces in the fixed range has one-decimal magnitudes.\<close>

lemma scale_item_one_decimal:
  assumes "in_fixed_range (js_mul (Num (kcal_of item)) factor)"
    and "in_fixed_range (js_mul (Num (protein_of item)) factor)"
    and "in_fixed_range (js_mul (Num (fat_of item)) factor)"
    and "in_fixed_range (js_mul (Num (carb_of item)) factor)"
  shows "one_decimal_item (scale_item factor item)"
  using assms by (simp add: one_decimal_item_def scale_item_magnitudes tenths_round_tenths)

text \<open>
  What scaling does to one item. The scaled list has one item for each item of the input,
  in the same order. In the scaled item the name, the quantity and the weight are those of
  the input item, and each of the four nutrient strings is what \<open>toFixedSafe\<close> prints
  with one digit for the parsed magnitude times the factor, followed by \<open>kcal\<close> for
  the calories and by \<open>g\<close> for the other three. Whenever that product is not finite or
  below \<open>10^21\<close> in magnitude, what is printed is a numeral with exactly one decimal,
  whose value is the product rounded to tenths, half away from zero (and 0 for a product
  that is not finite).
\<close>

lemma scaled_item_strings:
  "length (scaledIngredients budget arr) = length arr \<and>
   (\<forall>i < length arr.
      scaledIngredients budget arr ! i = scale_item (scaleFactor budget (kcal (raw_sums arr))) (arr ! i)) \<and>
   item_name (scale_item factor item) = item_name item \<and>
   item_quantity (scale_item factor item) = item_quantity item \<and>
   item_weight (scale_item factor item) = item_weight item \<and>
   item_calories (scale_item factor item) =
     Some (toFixedSafe (js_mul (numFromUnitString (item_calories item)) factor) 1 @ ''kcal'') \<and>
   item_protein (scale_item factor item) =
     Some (toFixedSafe (js_mul (numFromUnitString (item_protein item)) factor) 1 @ ''g'') \<and>
   item_fat (scale_item factor item) =
     Some (toFixedSafe (js_mul (numFromUnitString (item_fat item)) factor) 1 @ ''g'') \<and>
   item_carbohydrate (scale_item factor item) =
     Some (toFixedSafe (js_mul (numFromUnitString (item_carbohydrate item)) factor) 1 @ ''g'') \<and>
   (\<forall>n. in_fixed_range n \<longrightarrow>
      toFixedSafe n 1 = decimal1 (num_of n) \<and>
      js_Number (decimal1 (num_of n)) = Num (round_tenths (num_of n)))"
proof -
  have 1: "length (scaledIngredients budget arr) = length arr \<and>
   (\<forall>i < length arr.
      scaledIngredients budget arr ! i = scale_item (scaleFactor budget (kcal (raw_sums arr))) (arr ! i))"
    by (simp add: scaledIngredients_def)
  have 2: "\<forall>n. in_fixed_range n \<longrightarrow>
      toFixedSafe n 1 = decimal1 (num_of n) \<and>
      js_Number (decimal1 (num_of n)) = Num (round_tenths (num_of n))"
    by (simp add: toFixedSafe_decimal1 js_Number_decimal1)
  from 1 2 show ?thesis
    by (simp only: scale_item_fields) simp
qed

text \<open>
  The scenario of the specification: chicken breast of 200 kcal under a budget of 400.
\<close>

lemma scaled_chicken_breast:
  "scaledIngredients (Num 400) [nutrient_item ''chicken breast'' ''200kcal'' ''40g'' ''5g'' ''0g''] =
     [nutrient_item ''chicken breast'' ''400.0kcal'' ''80.0g'' ''10.0g'' ''0.0g'']"
proof -
  let ?item = "nutrient_item ''chicken breast'' ''200kcal'' ''40g'' ''5g'' ''0g''"
  define factor where "factor = scaleFactor (Num 400) (kcal (raw_sums [?item]))"
  have f: "factor = Num 2"
    by (simp add: factor_def scaleFactor_def scaleBase_def kcal_raw_sums eval_item eval_parse)
  note t = scaled_item_strings [of "Num 400" "[?item]" factor ?item]
  have shown: "toFixedSafe (Num x) 1 = decimal1 x" if "\<bar>x\<bar> < 10 ^ 21" for x
  proof -
    have "in_fixed_range (Num x)" using that by (simp add: in_fixed_range_def)
    then have "toFixedSafe (Num x) 1 = decimal1 (num_of (Num x))" using t by blast
    then show ?thesis by (simp add: num_of_def)
  qed
  have "scaledIngredients (Num 400) [?item] ! 0 = scale_item factor ([?item] ! 0)"
    unfolding factor_def using t by simp
  moreover have "length (scaledIngredients (Num 400) [?item]) = length [?item]"
    using t by blast
  ultimately have one: "scaledIngredients (Num 400) [?item] = [scale_item factor ?item]"
    by (cases "scaledIngredients (Num 400) [?item]") simp_all
  have c: "item_calories (scale_item factor ?item) = Some ''400.0kcal''"
  proof -
    have "item_calories (scale_item factor ?item) =
        Some (toFixedSafe (js_mul (numFromUnitString (item_calories ?item)) factor) 1 @ ''kcal'')"
      using t by blast
    also have "js_mul (numFromUnitString (item_calories ?item)) factor = Num 400"
      by (simp add: f nutrient_item_def eval_parse)
    also have "toFixedSafe (Num 400) 1 = ''400.0''"
      by (simp add: shown eval_decimal1 del: One_nat_def)
    finally show ?thesis by simp
  qed
  have p: "item_protein (scale_item factor ?item) = Some ''80.0g''"
  proof -
    have "item_protein (scale_item factor ?item) =
        Some (toFixedSafe (js_mul (numFromUnitString (item_protein ?item)) factor) 1 @ ''g'')"
      using t by blast
    also have "js_mul (numFromUnitString (item_protein ?item)) factor = Num 80"
      by (simp add: f nutrient_item_def eval_parse)
    also have "toFixedSafe (Num 80) 1 = ''80.0''"
      by (simp add: shown eval_decimal1 del: One_nat_def)
    finally show ?thesis by simp
  qed
  have ft: "item_fat (scale_item factor ?item) = Some ''10.0g''"
  proof -
    have "item_fat (scale_item factor ?item) =
        Some (toFixedSafe (js_mul (numFromUnitString (item_fat ?item)) factor) 1 @ ''g'')"
      using t by blast
    also have "js_mul (numFromUnitString (item_fat ?item)) factor = Num 10"
      by (simp add: f nutrient_item_def eval_parse)
    also have "toFixedSafe (Num 10) 1 = ''10.0''"
      by (simp add: shown eval_decimal1 del: One_nat_def)
    finally show ?thesis by simp
  qed
  have cb: "item_carbohydrate (scale_item factor ?item) = Some ''0.0g''"
  proof -
    have "item_carbohydrate (scale_item factor ?item) =
        Some (toFixedSafe (js_mul (numFromUnitString (item_carbohydrate ?item)) factor) 1 @ ''g'')"
      using t by blast
    also have "js_mul (numFromUnitString (item_carbohydrate ?item)) factor = Num 0"
      by (simp add: f nutrient_item_def eval_parse)
    also have "toFixedSafe (Num 0) 1 = ''0.0''"
      by (simp add: shown eval_decimal1 del: One_nat_def)
    finally show ?thesis by simp
  qed
  have frame: "item_name (scale_item factor ?item) = ''chicken breast''"
    "item_quantity (scale_item factor ?item) = None" "item_weight (scale_item factor ?item) = None"
    using t by (simp_all add: nutrient_item_def)
  have "scale_item factor ?item = nutrient_item ''chicken breast'' ''400.0kcal'' ''80.0g'' ''10.0g'' ''0.0g''"
    using c p ft cb frame by (simp add: nutrient_item_def)
  then show ?thesis by (simp add: one)
qed

text \<open>
  C8. Scaling is to rewrite each of the four magnitudes of every item as a string with one
  decimal. Below \<open>10^21\<close> it does (\<open>scaled_item_strings\<close>). From \<open>10^21\<close> on
  \<open>toFixed\<close> answers in exponent notation, a case that \<open>toFixedSafe\<close> does not
  catch: in the starting state, with the budget of 360 for the morning, an item of 360 kcal
  whose fat is \<open>10^22\<close> g is scaled by the factor 1 and its new fat string is
  \<open>1e+22g\<close>. The total that is displayed is \<open>10^22\<close>, while the totals of the
  date, which read the string back through the unit parser, show 122.
\<close>

theorem scaling_prints_exponent_notation:
  "map item_fat
     (ingredients
        (on_parsed ''2024-05-01''
           (ParsedArray [nutrient_item ''oil'' ''360kcal'' ''0g'' ''10000000000000000000000g'' ''0g''])
           initial_state)) = [Some ''1e+22g''] \<and>
   totalFat
     (on_parsed ''2024-05-01''
        (ParsedArray [nutrient_item ''oil'' ''360kcal'' ''0g'' ''10000000000000000000000g'' ''0g''])
        initial_state) = Num 10000000000000000000000 \<and>
   fat (getTotalForDate
          (dailyRecords
             (on_parsed ''2024-05-01''
                (ParsedArray [nutrient_item ''oil'' ''360kcal'' ''0g'' ''10000000000000000000000g'' ''0g''])
                initial_state))
          ''2024-05-01'') = Num 122"
proof -
  let ?oil = "nutrient_item ''oil'' ''360kcal'' ''0g'' ''10000000000000000000000g'' ''0g''"
  let ?st = "on_parsed ''2024-05-01'' (ParsedArray [?oil]) initial_state"
  have budget: "slotBudget (goalCalories initial_state) (calorieSplit initial_state) (mealTime initial_state) = Num 360"
    by (simp add: initial_state_def slotBudget_def mealRatiosCalc_def)
  have v: "kcal_of ?oil = 360" "fat_of ?oil = 10000000000000000000000"
    by (simp_all add: eval_item eval_parse)
  have f: "scaleFactor (Num 360) (kcal (raw_sums [?oil])) = Num 1"
    by (simp add: scaleFactor_def scaleBase_def kcal_raw_sums v)
  have big: "toFixedSafe (Num 10000000000000000000000) 1 = ''1e+22''"
    by (simp add: toFixedSafe_def num_of_def toFixed_ten_to_22 del: One_nat_def)
  have "item_fat (scale_item (Num 1) ?oil) =
      Some (toFixedSafe (js_mul (Num (fat_of ?oil)) (Num 1)) 1 @ ''g'')"
    by (simp add: scale_item_fields numFromUnitString_num_of del: One_nat_def)
  then have s: "item_fat (scale_item (Num 1) ?oil) = Some ''1e+22g''"
    by (simp add: v big del: One_nat_def)
  have scaled: "scaledIngredients (Num 360) [?oil] = [scale_item (Num 1) ?oil]"
    by (simp add: scaledIngredients_def f)
  have 1: "map item_fat (ingredients ?st) = [Some ''1e+22g'']"
    by (simp add: on_parsed_def Let_def budget scaled s)
  have "totalFat ?st = js_Number (toFixedSafe (js_mul (Num (fat_of ?oil)) (Num 1)) 1)"
    by (simp add: on_parsed_def Let_def budget scaled_totals_def raw_sums_exact exact_sums_def
        fin_totals_def v scaleFactor_def scaleBase_def del: One_nat_def)
  then have 2: "totalFat ?st = Num 10000000000000000000000"
    by (simp add: v big js_Number_1e22 del: One_nat_def)
  have reread: "fat_of (scale_item (Num 1) ?oil) = 122"
    by (simp add: fat_of_def [of "scale_item (Num 1) ?oil"] s num_of_def eval_parse)
  have "dailyRecords ?st = append_meal ''2024-05-01'' Asa [scale_item (Num 1) ?oil] Map.empty"
    by (simp add: on_parsed_def Let_def budget scaled) (simp add: initial_state_def)
  then have "fat (getTotalForDate (dailyRecords ?st) ''2024-05-01'') =
      js_Number (toFixedSafe (Num 122) (Suc 0))"
    by (simp add: getTotalForDate_exact all_items_first_meal exact_sums_def fin_totals_def
        round_totals_def reread)
  also have "\<dots> = Num 122"
    using js_Number_toFixedSafe [of "Num 122"]
    by (simp add: in_fixed_range_def num_of_def round_tenths_def signed_def floor_rat_numeral_divide)
  finally have 3: "fat (getTotalForDate (dailyRecords ?st) ''2024-05-01'') = Num 122" .
  from 1 2 3 show ?thesis by (intro conjI)
qed

section \<open>The totals of a scaled list\<close>

lemma scaleFactor_nonzero_sum:
  "q \<noteq> 0 \<Longrightarrow> js_mul (Num q) (scaleFactor (Num b) (Num q)) = Num b"
  by (simp add: scaleFactor_def scaleBase_def)

lemma scaleFactor_zero_budget: "scaleFactor (Num 0) (Num q) = Num 0"
  by (simp add: scaleFactor_def scaleBase_def)

lemma scaleFactor_zero_sum: "scaleFactor budget (Num 0) = js_div budget (Num 1)"
  by (simp add: scaleFactor_def scaleBase_def)

lemma shown_zero_product: "js_Number (toFixedSafe (js_mul (Num 0) (js_div budget (Num 1))) (Suc 0)) = Num 0"
proof -
  have "js_mul (Num 0) (js_div budget (Num 1)) = Num 0 \<or> js_mul (Num 0) (js_div budget (Num 1)) = NaN"
    by (cases budget) (simp_all add: inf_of_sign_def)
  then have "in_fixed_range (js_mul (Num 0) (js_div budget (Num 1))) \<and>
      num_of (js_mul (Num 0) (js_div budget (Num 1))) = 0"
    by (auto simp: in_fixed_range_def num_of_def)
  then show ?thesis
    by (simp add: js_Number_toFixedSafe round_tenths_zero)
qed

lemma shown_zero: "js_Number (toFixedSafe (Num 0) (Suc 0)) = Num 0"
  using js_Number_toFixedSafe [of "Num 0"]
  by (simp add: in_fixed_range_def num_of_def round_tenths_zero)

lemma sum_list_nonneg_rat: "list_all (\<lambda>x. 0 \<le> f x) xs \<Longrightarrow> (0 :: rat) \<le> sum_list (map f xs)"
  by (induction xs) simp_all

lemma member_le_sum_list_rat:
  "list_all (\<lambda>x. 0 \<le> f x) xs \<Longrightarrow> x \<in> set xs \<Longrightarrow> (f x :: rat) \<le> sum_list (map f xs)"
proof (induction xs)
  case Nil
  then show ?case by simp
next
  case (Cons a xs)
  have s: "0 \<le> sum_list (map f xs)"
    using Cons.prems(1) by (simp add: sum_list_nonneg_rat)
  have a: "0 \<le> f a" using Cons.prems(1) by simp
  show ?case
  proof (cases "x = a")
    case True
    then show ?thesis using s by simp
  next
    case False
    then have "f x \<le> sum_list (map f xs)"
      using Cons by simp
    then show ?thesis using a by simp
  qed
qed

lemma sum_list_round_tenths_close:
  "\<bar>sum_list (map (\<lambda>x. round_tenths (g x)) xs) - sum_list (map g xs)\<bar> \<le> of_nat (length xs) / 20"
proof (induction xs)
  case Nil
  show ?case by simp
next
  case (Cons a xs)
  define x where "x = round_tenths (g a) - g a"
  define y where "y = sum_list (map (\<lambda>x. round_tenths (g x)) xs) - sum_list (map g xs)"
  have x: "\<bar>x\<bar> \<le> 1 / 20" unfolding x_def by (rule round_tenths_close)
  have y: "\<bar>y\<bar> \<le> of_nat (length xs) / 20" unfolding y_def by (rule Cons.IH)
  have l: "(of_nat (length (a # xs)) :: rat) / 20 = 1 / 20 + of_nat (length xs) / 20"
    by (simp add: add_divide_distrib)
  have e: "sum_list (map (\<lambda>x. round_tenths (g x)) (a # xs)) - sum_list (map g (a # xs)) = x + y"
    by (simp add: x_def y_def)
  have "\<bar>x + y\<bar> \<le> 1 / 20 + of_nat (length xs) / 20"
    using x y by linarith
  then show ?case by (simp only: e l)
qed

lemma recomputed_totals_ledger:
  "getTotalForDate (append_meal d m (scaledIngredients budget arr) Map.empty) d = recomputed_totals budget arr"
  by (simp add: getTotalForDate_exact all_items_first_meal recomputed_totals_def raw_sums_exact)

lemma recomputed_kcal_close:
  assumes nonneg: "list_all (\<lambda>item. 0 \<le> kcal_of item) arr"
    and pos: "0 < sum_list (map kcal_of arr)"
    and b: "\<bar>b\<bar> \<le> 10 ^ 6"
    and n: "length arr \<le> 1000"
  shows "\<exists>r. kcal (recomputed_totals (Num b) arr) = Num r \<and> \<bar>r - b\<bar> \<le> of_nat (length arr) / 10"
proof -
  define q where "q = sum_list (map kcal_of arr)"
  define f where "f = b / q"
  have q: "0 < q" using pos by (simp add: q_def)
  have fac: "scaleFactor (Num b) (kcal (raw_sums arr)) = Num f"
    using q by (simp add: kcal_raw_sums scaleFactor_def scaleBase_def q_def f_def)
  have item: "kcal_of (scale_item (Num f) item) = round_tenths (kcal_of item * f)" if "item \<in> set arr" for item
  proof -
    have k0: "0 \<le> kcal_of item"
      using nonneg that by (simp add: list_all_iff)
    have kq: "kcal_of item \<le> q"
      unfolding q_def using nonneg that by (rule member_le_sum_list_rat)
    have "\<bar>kcal_of item * f\<bar> = kcal_of item / q * \<bar>b\<bar>"
      using k0 q by (simp add: f_def abs_mult)
    also have "\<dots> \<le> 1 * \<bar>b\<bar>"
      using kq q by (intro mult_right_mono) simp_all
    finally have "\<bar>kcal_of item * f\<bar> < 10 ^ 21" using b by simp
    then have "in_fixed_range (js_mul (Num (kcal_of item)) (Num f))"
      by (simp add: in_fixed_range_def)
    then show ?thesis
      using scale_item_magnitudes(1) [of item "Num f"] by (simp add: num_of_def)
  qed
  have m: "map kcal_of (scaledIngredients (Num b) arr) = map (\<lambda>item. round_tenths (kcal_of item * f)) arr"
    by (simp add: scaledIngredients_def fac item)
  define R where "R = sum_list (map (\<lambda>item. round_tenths (kcal_of item * f)) arr)"
  have "sum_list (map (\<lambda>item. kcal_of item * f) arr) = q * f"
    by (simp add: q_def sum_list_mult_const)
  also have "\<dots> = b" using q by (simp add: f_def)
  finally have total: "sum_list (map (\<lambda>item. kcal_of item * f) arr) = b" .
  have close: "\<bar>R - b\<bar> \<le> of_nat (length arr) / 20"
    using sum_list_round_tenths_close [of "\<lambda>item. kcal_of item * f" arr] by (simp add: R_def total)
  have t: "tenths R"
    unfolding R_def by (rule tenths_sum_list) (simp add: list_all_iff tenths_round_tenths)
  have "(of_nat (length arr) :: rat) \<le> of_nat 1000"
    using n by (simp only: of_nat_le_iff)
  then have "(of_nat (length arr) :: rat) / 20 \<le> 50" by simp
  then have "\<bar>R\<bar> \<le> 10 ^ 6 + 50"
    using close b by linarith
  then have r: "\<bar>R\<bar> < 10 ^ 21" by simp
  have "kcal (recomputed_totals (Num b) arr) = js_Number (toFixedSafe (Num R) (Suc 0))"
    by (simp add: recomputed_totals_def kcal_round_totals raw_sums_exact exact_sums_def fin_totals_def m R_def)
  also have "\<dots> = Num R"
    using js_Number_toFixedSafe [of "Num R"] r t
    by (simp add: in_fixed_range_def num_of_def round_tenths_tenths)
  finally have "kcal (recomputed_totals (Num b) arr) = Num R" .
  moreover have "\<bar>R - b\<bar> \<le> of_nat (length arr) / 10"
  proof -
    have "(of_nat (length arr) :: rat) / 20 \<le> of_nat (length arr) / 10" by simp
    then show ?thesis using close by simp
  qed
  ultimately show ?thesis by blast
qed

lemma scale_item_zero_factor:
  "kcal_of (scale_item (Num 0) item) = 0" "protein_of (scale_item (Num 0) item) = 0"
  "fat_of (scale_item (Num 0) item) = 0" "carb_of (scale_item (Num 0) item) = 0"
  using scale_item_magnitudes [of item "Num 0"]
  by (simp_all add: in_fixed_range_def num_of_def round_tenths_zero)

lemma recomputed_zero_budget: "recomputed_totals (Num 0) arr = zero_totals"
proof -
  have "exact_sums (map (scale_item (Num 0)) arr) = zero_totals"
    by (simp add: exact_sums_def fin_totals_def zero_totals_def comp_def scale_item_zero_factor)
  moreover have "scaleFactor (Num 0) (kcal (raw_sums arr)) = Num 0"
    by (simp add: kcal_raw_sums scaleFactor_zero_budget)
  ultimately show ?thesis
    by (simp add: recomputed_totals_def scaledIngredients_def raw_sums_exact [of "map (scale_item (Num 0)) arr"]
        round_totals_zero)
qed

lemma scale_item_zero_kcal:
  assumes "kcal_of item = 0"
  shows "kcal_of (scale_item (js_div budget (Num 1)) item) = 0"
proof -
  have "js_mul (Num 0) (js_div budget (Num 1)) = Num 0 \<or> js_mul (Num 0) (js_div budget (Num 1)) = NaN"
    by (cases budget) (simp_all add: inf_of_sign_def)
  then have "in_fixed_range (js_mul (Num 0) (js_div budget (Num 1))) \<and>
      num_of (js_mul (Num 0) (js_div budget (Num 1))) = 0"
    by (auto simp: in_fixed_range_def num_of_def)
  then show ?thesis
    using scale_item_magnitudes(1) [of item "js_div budget (Num 1)"] assms
    by (simp add: round_tenths_zero)
qed

lemma recomputed_zero_kcal:
  assumes "list_all (\<lambda>item. kcal_of item = 0) arr"
  shows "kcal (recomputed_totals budget arr) = Num 0"
proof -
  have q: "kcal (raw_sums arr) = Num 0"
    using assms by (simp add: kcal_raw_sums sum_list_all_zero)
  have "map kcal_of (scaledIngredients budget arr) = map (\<lambda>item. 0) arr"
    using assms by (simp add: scaledIngredients_def q scaleFactor_zero_sum scale_item_zero_kcal list_all_iff)
  then have "kcal (raw_sums (scaledIngredients budget arr)) = Num 0"
    by (simp add: kcal_raw_sums)
  then show ?thesis
    by (simp add: recomputed_totals_def kcal_round_totals shown_zero)
qed

text \<open>
  C1, as amended. The calorie total recomputed over the scaled items is what the totals
  of a date give for a day that holds those items only: the rounded sum of the
  one-decimal strings read back. Each string is within 0.05 of its item's share of the
  budget, so the recomputed total is within 0.1 kcal per item of the budget, and the
  total that the scaler itself reports is within 0.1 of it. This is stated for lists of
  at most 1000 items with non-negative calories whose raw calorie sum lies between 0.001
  and \<open>10^6\<close> and for budgets up to \<open>10^6\<close> in magnitude: there the rounding error of
  binary64, which the exact arithmetic of this theory leaves out, stays far below the
  0.05 per item that the bound leaves free. When the budget is 0, all four totals are 0,
  the reported ones and the recomputed ones. When the calories of every item parse to
  zero, so that the raw sum is zero, the calorie total is 0 whatever the budget is,
  reported and recomputed.
\<close>

theorem recomputed_kcal_total_near_budget:
  "(list_all (\<lambda>item. 0 \<le> kcal_of item) arr \<and> length arr \<le> 1000 \<and>
    1 / 1000 \<le> num_of (kcal (raw_sums arr)) \<and> num_of (kcal (raw_sums arr)) \<le> 10 ^ 6 \<and> \<bar>b\<bar> \<le> 10 ^ 6 \<longrightarrow>
      (\<exists>r. kcal (recomputed_totals (Num b) arr) = Num r \<and> \<bar>r - b\<bar> \<le> of_nat (length arr) / 10) \<and>
      (\<exists>r. kcal (scaled_totals (Num b) arr) = Num r \<and> \<bar>r - b\<bar> \<le> 1 / 10)) \<and>
   scaled_totals (Num 0) arr = \<lparr>kcal = Num 0, protein = Num 0, fat = Num 0, carbs = Num 0\<rparr> \<and>
   recomputed_totals (Num 0) arr = \<lparr>kcal = Num 0, protein = Num 0, fat = Num 0, carbs = Num 0\<rparr> \<and>
   (list_all (\<lambda>item. kcal_of item = 0) arr \<longrightarrow>
      kcal (scaled_totals budget arr) = Num 0 \<and> kcal (recomputed_totals budget arr) = Num 0) \<and>
   getTotalForDate (append_meal d m (scaledIngredients budget arr) Map.empty) d = recomputed_totals budget arr"
proof -
  define q where "q = sum_list (map kcal_of arr)"
  have raw: "raw_sums arr = fin_totals q (sum_list (map protein_of arr)) (sum_list (map fat_of arr))
      (sum_list (map carb_of arr))"
    by (simp add: raw_sums_exact exact_sums_def q_def)
  have 1: "list_all (\<lambda>item. 0 \<le> kcal_of item) arr \<and> length arr \<le> 1000 \<and>
    1 / 1000 \<le> num_of (kcal (raw_sums arr)) \<and> num_of (kcal (raw_sums arr)) \<le> 10 ^ 6 \<and> \<bar>b\<bar> \<le> 10 ^ 6 \<longrightarrow>
      (\<exists>r. kcal (recomputed_totals (Num b) arr) = Num r \<and> \<bar>r - b\<bar> \<le> of_nat (length arr) / 10) \<and>
      (\<exists>r. kcal (scaled_totals (Num b) arr) = Num r \<and> \<bar>r - b\<bar> \<le> 1 / 10)"
  proof
    assume a: "list_all (\<lambda>item. 0 \<le> kcal_of item) arr \<and> length arr \<le> 1000 \<and>
      1 / 1000 \<le> num_of (kcal (raw_sums arr)) \<and> num_of (kcal (raw_sums arr)) \<le> 10 ^ 6 \<and> \<bar>b\<bar> \<le> 10 ^ 6"
    then have q: "0 < q" by (simp add: raw fin_totals_def num_of_def)
    have re: "\<exists>r. kcal (recomputed_totals (Num b) arr) = Num r \<and> \<bar>r - b\<bar> \<le> of_nat (length arr) / 10"
      using a q by (intro recomputed_kcal_close) (simp_all add: q_def)
    have "in_fixed_range (Num b)" using a by (simp add: in_fixed_range_def)
    then have "js_Number (toFixedSafe (Num b) (Suc 0)) = Num (round_tenths b)"
      using js_Number_toFixedSafe [of "Num b"] by (simp add: num_of_def)
    then have "kcal (scaled_totals (Num b) arr) = Num (round_tenths b)"
      using scaleFactor_nonzero_sum [of q b] q
      by (simp add: scaled_totals_def Let_def raw fin_totals_def)
    moreover have "\<bar>round_tenths b - b\<bar> \<le> 1 / 10"
      using round_tenths_close [of b] by simp
    ultimately have "\<exists>r. kcal (scaled_totals (Num b) arr) = Num r \<and> \<bar>r - b\<bar> \<le> 1 / 10"
      by blast
    with re show "(\<exists>r. kcal (recomputed_totals (Num b) arr) = Num r \<and> \<bar>r - b\<bar> \<le> of_nat (length arr) / 10) \<and>
      (\<exists>r. kcal (scaled_totals (Num b) arr) = Num r \<and> \<bar>r - b\<bar> \<le> 1 / 10)" ..
  qed
  have 2: "scaled_totals (Num 0) arr = \<lparr>kcal = Num 0, protein = Num 0, fat = Num 0, carbs = Num 0\<rparr>"
    by (simp add: scaled_totals_def Let_def raw fin_totals_def scaleFactor_zero_budget shown_zero)
  have 3: "recomputed_totals (Num 0) arr = \<lparr>kcal = Num 0, protein = Num 0, fat = Num 0, carbs = Num 0\<rparr>"
    by (simp add: recomputed_zero_budget zero_totals_def)
  have 4: "list_all (\<lambda>item. kcal_of item = 0) arr \<longrightarrow>
      kcal (scaled_totals budget arr) = Num 0 \<and> kcal (recomputed_totals budget arr) = Num 0"
  proof
    assume z: "list_all (\<lambda>item. kcal_of item = 0) arr"
    then have q: "q = 0" by (simp add: q_def sum_list_all_zero)
    have "kcal (scaled_totals budget arr) = Num 0"
      by (simp add: scaled_totals_def Let_def raw fin_totals_def q scaleFactor_zero_sum
          shown_zero_product)
    then show "kcal (scaled_totals budget arr) = Num 0 \<and> kcal (recomputed_totals budget arr) = Num 0"
      using recomputed_zero_kcal [OF z] by simp
  qed
  have 5: "getTotalForDate (append_meal d m (scaledIngredients budget arr) Map.empty) d = recomputed_totals budget arr"
    by (rule recomputed_totals_ledger)
  from 1 2 3 4 5 show ?thesis by (intro conjI)
qed

theorem recomputed_kcal_total_near_budget_witness:
  "(\<exists>r. kcal (recomputed_totals (Num 360) (replicate 7 (nutrient_item ''bun'' ''100kcal'' ''0g'' ''0g'' ''0g''))) = Num r \<and>
        \<bar>r - 360\<bar> \<le> 7 / 10) \<and>
   (\<exists>r. kcal (scaled_totals (Num 360) (replicate 7 (nutrient_item ''bun'' ''100kcal'' ''0g'' ''0g'' ''0g''))) = Num r \<and>
        \<bar>r - 360\<bar> \<le> 1 / 10) \<and>
   kcal (recomputed_totals PosInf [nutrient_item ''water'' ''0kcal'' ''0g'' ''0g'' ''0g'']) = Num 0"
proof -
  let ?bun = "nutrient_item ''bun'' ''100kcal'' ''0g'' ''0g'' ''0g''"
  let ?water = "nutrient_item ''water'' ''0kcal'' ''0g'' ''0g'' ''0g''"
  have b: "kcal_of ?bun = 100" and w: "kcal_of ?water = 0"
    by (simp_all add: eval_item eval_parse)
  have k: "kcal (raw_sums (replicate 7 ?bun)) = Num 700"
    by (simp add: kcal_raw_sums b sum_list_replicate)
  have h: "list_all (\<lambda>item. 0 \<le> kcal_of item) (replicate 7 ?bun) \<and> length (replicate 7 ?bun) \<le> 1000 \<and>
      1 / 1000 \<le> num_of (kcal (raw_sums (replicate 7 ?bun))) \<and>
      num_of (kcal (raw_sums (replicate 7 ?bun))) \<le> 10 ^ 6 \<and> \<bar>360 :: rat\<bar> \<le> 10 ^ 6"
    by (simp add: k num_of_def list_all_iff b)
  have z: "list_all (\<lambda>item. kcal_of item = 0) [?water]"
    by (simp add: w)
  have l: "of_nat (length (replicate 7 ?bun)) / 10 = (7 / 10 :: rat)" by simp
  from recomputed_kcal_total_near_budget [of "replicate 7 ?bun" 360 PosInf] h
  have "(\<exists>r. kcal (recomputed_totals (Num 360) (replicate 7 ?bun)) = Num r \<and>
          \<bar>r - 360\<bar> \<le> of_nat (length (replicate 7 ?bun)) / 10) \<and>
        (\<exists>r. kcal (scaled_totals (Num 360) (replicate 7 ?bun)) = Num r \<and> \<bar>r - 360\<bar> \<le> 1 / 10)"
    by blast
  moreover have "kcal (recomputed_totals PosInf [?water]) = Num 0"
    using recomputed_kcal_total_near_budget [of "[?water]" 0 PosInf] z by blast
  ultimately show ?thesis by (simp only: l) 
qed

text \<open>
  C1 as stated fails in two ways. For a list whose raw calorie sum is zero and whose
  protein sum is 10, the protein total under a budget of 360 is 3600, not zero. And the
  calorie total recomputed over the scaled items can miss the budget by more than 0.1:
  seven items of 100 kcal under a budget of 360 are each printed as 51.4, and the totals
  of the date they are appended to show 359.8, while the scaler itself reports 360.
\<close>

theorem scaled_totals_miss_the_claim:
  "kcal (raw_sums [nutrient_item ''tofu'' ''0kcal'' ''10g'' ''0g'' ''0g'']) = Num 0 \<and>
   protein (scaled_totals (Num 360) [nutrient_item ''tofu'' ''0kcal'' ''10g'' ''0g'' ''0g'']) = Num 3600 \<and>
   kcal (raw_sums (replicate 7 (nutrient_item ''bun'' ''100kcal'' ''0g'' ''0g'' ''0g''))) = Num 700 \<and>
   kcal (scaled_totals (Num 360) (replicate 7 (nutrient_item ''bun'' ''100kcal'' ''0g'' ''0g'' ''0g''))) = Num 360 \<and>
   kcal (getTotalForDate
           (append_meal ''2024-05-01'' Asa
              (scaledIngredients (Num 360) (replicate 7 (nutrient_item ''bun'' ''100kcal'' ''0g'' ''0g'' ''0g'')))
              Map.empty)
           ''2024-05-01'') = Num (1799 / 5)"
proof -
  let ?tofu = "nutrient_item ''tofu'' ''0kcal'' ''10g'' ''0g'' ''0g''"
  let ?bun = "nutrient_item ''bun'' ''100kcal'' ''0g'' ''0g'' ''0g''"
  have shown: "js_Number (toFixedSafe (Num x) (Suc 0)) = Num (round_tenths x)" if "\<bar>x\<bar> < 10 ^ 21" for x
    using js_Number_toFixedSafe [of "Num x"] that by (simp add: in_fixed_range_def num_of_def)
  have t: "kcal_of ?tofu = 0" "protein_of ?tofu = 10"
    by (simp_all add: eval_item eval_parse)
  have b: "kcal_of ?bun = 100" "protein_of ?bun = 0" "fat_of ?bun = 0" "carb_of ?bun = 0"
    by (simp_all add: eval_item eval_parse)
  have 1: "kcal (raw_sums [?tofu]) = Num 0"
    by (simp add: kcal_raw_sums t)
  have 2: "protein (scaled_totals (Num 360) [?tofu]) = Num 3600"
    by (simp add: scaled_totals_def Let_def raw_sums_exact exact_sums_def fin_totals_def t
        scaleFactor_def scaleBase_def shown round_tenths_def signed_def floor_rat_numeral_divide)
  have 3: "kcal (raw_sums (replicate 7 ?bun)) = Num 700"
    by (simp add: kcal_raw_sums b sum_list_replicate)
  have 4: "kcal (scaled_totals (Num 360) (replicate 7 ?bun)) = Num 360"
    by (simp add: scaled_totals_def Let_def raw_sums_exact exact_sums_def fin_totals_def b
        scaleFactor_def scaleBase_def shown round_tenths_def signed_def floor_rat_numeral_divide
        sum_list_replicate)
  have f: "scaleFactor (Num 360) (kcal (raw_sums (replicate 7 ?bun))) = Num (18 / 35)"
    by (simp add: 3 scaleFactor_def scaleBase_def)
  have s: "scaledIngredients (Num 360) (replicate 7 ?bun) = replicate 7 (scale_item (Num (18 / 35)) ?bun)"
    by (simp add: scaledIngredients_def f)
  have r: "round_tenths (360 / 7) = 257 / 5"
    by (simp add: round_tenths_def signed_def floor_rat_numeral_divide)
  have m: "kcal_of (scale_item (Num (18 / 35)) ?bun) = 257 / 5"
    "protein_of (scale_item (Num (18 / 35)) ?bun) = 0"
    "fat_of (scale_item (Num (18 / 35)) ?bun) = 0"
    "carb_of (scale_item (Num (18 / 35)) ?bun) = 0"
    by (simp_all add: scale_item_magnitudes b in_fixed_range_def num_of_def r round_tenths_zero)
  have "kcal (getTotalForDate
           (append_meal ''2024-05-01'' Asa (scaledIngredients (Num 360) (replicate 7 ?bun)) Map.empty)
           ''2024-05-01'') =
      kcal (round_totals (exact_sums (replicate 7 (scale_item (Num (18 / 35)) ?bun))))"
    by (simp only: getTotalForDate_exact all_items_first_meal s)
  also have "\<dots> = js_Number (toFixedSafe (Num (1799 / 5)) (Suc 0))"
    by (simp add: round_totals_def exact_sums_def fin_totals_def m sum_list_replicate)
  also have "\<dots> = Num (1799 / 5)"
    by (simp add: shown round_tenths_def signed_def floor_rat_numeral_divide)
  finally have 5: "kcal (getTotalForDate
           (append_meal ''2024-05-01'' Asa (scaledIngredients (Num 360) (replicate 7 ?bun)) Map.empty)
           ''2024-05-01'') = Num (1799 / 5)" .
  from 1 2 3 4 5 show ?thesis by (intro conjI)
qed

section \<open>Appending the same meal repeatedly\<close>

lemma exact_sums_funpow:
  "exact_sums (all_items ((append_meal d m meal ^^ n) ledger) d) =
     fin_totals
       (sum_list (map kcal_of (all_items ledger d)) + of_nat n * sum_list (map kcal_of meal))
       (sum_list (map protein_of (all_items ledger d)) + of_nat n * sum_list (map protein_of meal))
       (sum_list (map fat_of (all_items ledger d)) + of_nat n * sum_list (map fat_of meal))
       (sum_list (map carb_of (all_items ledger d)) + of_nat n * sum_list (map carb_of meal))"
proof (induction n)
  case 0
  show ?case by (simp add: exact_sums_def)
next
  case (Suc n)
  have "exact_sums (all_items ((append_meal d m meal ^^ Suc n) ledger) d) =
      exact_sums (all_items ((append_meal d m meal ^^ n) ledger) d @ meal)"
    by (simp add: all_items_append_meal)
  also have "\<dots> =
      fin_totals
        (num_of (kcal (exact_sums (all_items ((append_meal d m meal ^^ n) ledger) d))) + sum_list (map kcal_of meal))
        (num_of (protein (exact_sums (all_items ((append_meal d m meal ^^ n) ledger) d))) + sum_list (map protein_of meal))
        (num_of (fat (exact_sums (all_items ((append_meal d m meal ^^ n) ledger) d))) + sum_list (map fat_of meal))
        (num_of (carbs (exact_sums (all_items ((append_meal d m meal ^^ n) ledger) d))) + sum_list (map carb_of meal))"
    by (simp add: exact_sums_append) (simp add: exact_sums_def fin_totals_def num_of_def)
  finally show ?case
    by (simp add: Suc.IH fin_totals_def num_of_def algebra_simps)
qed

lemma round_totals_one_decimal:
  assumes "tenths a" "tenths b" "tenths c" "tenths e"
    and "\<bar>a\<bar> < 10 ^ 21" "\<bar>b\<bar> < 10 ^ 21" "\<bar>c\<bar> < 10 ^ 21" "\<bar>e\<bar> < 10 ^ 21"
  shows "round_totals (fin_totals a b c e) = fin_totals a b c e"
proof -
  have "js_Number (toFixedSafe (Num x) (Suc 0)) = Num x" if "tenths x" and "\<bar>x\<bar> < 10 ^ 21" for x
    using js_Number_toFixedSafe [of "Num x"] that
    by (simp add: in_fixed_range_def num_of_def round_tenths_tenths)
  then show ?thesis
    using assms by (simp add: round_totals_def fin_totals_def)
qed

lemma day_or_empty_append:
  "day_or_empty (append_meal d m meal prev) d = (day_or_empty prev d)(m := day_or_empty prev d m @ [meal])"
  by (simp add: append_meal_apply day_or_empty_def)

lemma day_after_appends:
  assumes "ledger d = None"
  shows "day_or_empty ((append_meal d m meal ^^ n) ledger) d = empty_day(m := replicate n meal)"
proof (induction n)
  case 0
  show ?case using assms by (auto simp: day_or_empty_def empty_day_def)
next
  case (Suc n)
  have "day_or_empty ((append_meal d m meal ^^ Suc n) ledger) d =
      day_or_empty (append_meal d m meal ((append_meal d m meal ^^ n) ledger)) d"
    by simp
  also have "\<dots> = (empty_day(m := replicate n meal))(m := (empty_day(m := replicate n meal)) m @ [meal])"
    by (simp only: day_or_empty_append Suc.IH)
  also have "\<dots> = empty_day(m := replicate (Suc n) meal)"
    by (simp add: replicate_append_same)
  finally show ?case .
qed

lemma all_items_day: "all_items ledger d = concat (concat (object_values (day_or_empty ledger d)))"
  by (simp add: all_items_def day_or_empty_def empty_day_def object_values_def split: option.splits)

lemma all_items_after_appends:
  assumes "ledger d = None"
  shows "all_items ((append_meal d m meal ^^ n) ledger) d = concat (replicate n meal)"
proof -
  have "day_or_empty ((append_meal d m meal ^^ n) ledger) d = empty_day(m := replicate n meal)"
    using assms by (rule day_after_appends)
  then show ?thesis
    by (cases m) (simp_all add: all_items_day object_values_def empty_day_def)
qed

lemma abs_sum_list_le: "\<bar>sum_list (map f xs)\<bar> \<le> sum_list (map (\<lambda>x. \<bar>f x :: rat\<bar>) xs)"
proof (induction xs)
  case Nil
  show ?case by simp
next
  case (Cons a xs)
  have "\<bar>f a + sum_list (map f xs)\<bar> \<le> \<bar>f a\<bar> + \<bar>sum_list (map f xs)\<bar>"
    by (rule abs_triangle_ineq)
  then show ?case using Cons.IH by simp
qed

lemma sum_list_mono_rat:
  "(\<And>x. f x \<le> g x) \<Longrightarrow> sum_list (map f xs) \<le> (sum_list (map g xs) :: rat)"
  by (induction xs) (simp_all add: add_mono)

lemma total_magnitude_bounds:
  "\<bar>sum_list (map kcal_of items)\<bar> \<le> total_magnitude items"
  "\<bar>sum_list (map protein_of items)\<bar> \<le> total_magnitude items"
  "\<bar>sum_list (map fat_of items)\<bar> \<le> total_magnitude items"
  "\<bar>sum_list (map carb_of items)\<bar> \<le> total_magnitude items"
proof -
  have "\<bar>sum_list (map f items)\<bar> \<le> total_magnitude items"
    if "\<And>item. \<bar>f item\<bar> \<le> \<bar>kcal_of item\<bar> + \<bar>protein_of item\<bar> + \<bar>fat_of item\<bar> + \<bar>carb_of item\<bar>" for f
  proof -
    have "\<bar>sum_list (map f items)\<bar> \<le> sum_list (map (\<lambda>x. \<bar>f x\<bar>) items)"
      by (rule abs_sum_list_le)
    also have "\<dots> \<le> total_magnitude items"
      unfolding total_magnitude_def using that by (rule sum_list_mono_rat)
    finally show ?thesis .
  qed
  then show "\<bar>sum_list (map kcal_of items)\<bar> \<le> total_magnitude items"
    "\<bar>sum_list (map protein_of items)\<bar> \<le> total_magnitude items"
    "\<bar>sum_list (map fat_of items)\<bar> \<le> total_magnitude items"
    "\<bar>sum_list (map carb_of items)\<bar> \<le> total_magnitude items"
    by simp_all
qed

lemma multiple_in_bounds:
  assumes "\<bar>x\<bar> \<le> l" and "of_nat (max n 1) * l \<le> (10 :: rat) ^ 6"
  shows "\<bar>of_nat n * x\<bar> < 10 ^ 21" and "\<bar>x\<bar> < 10 ^ 21"
proof -
  have l0: "0 \<le> l" using assms(1) by simp
  have "\<bar>of_nat n * x\<bar> = of_nat n * \<bar>x\<bar>" by (simp add: abs_mult)
  also have "\<dots> \<le> of_nat n * l"
    using assms(1) by (simp add: mult_left_mono)
  also have "\<dots> \<le> of_nat (max n 1) * l"
    using l0 by (intro mult_right_mono) simp_all
  finally show "\<bar>of_nat n * x\<bar> < 10 ^ 21" using assms(2) by simp
  have "\<bar>x\<bar> \<le> 1 * l" using assms(1) by simp
  also have "\<dots> \<le> of_nat (max n 1) * l"
    using l0 by (intro mult_right_mono) simp_all
  finally show "\<bar>x\<bar> < 10 ^ 21" using assms(2) by simp
qed

text \<open>
  C5, as amended. Let the date have no record yet. After appending the meal \<open>n\<close> times
  under one meal time, the totals of the date are the rounded sums over \<open>n\<close> copies of
  the meal in a row: no entry interferes with another. If moreover every item of the meal
  has magnitudes that are multiples of one tenth, as every item printed by the scaler in
  the fixed range has, then these totals and \<open>n\<close> times the totals after a single
  append are shown as the same one-decimal numerals. This second part is stated for at
  most 1000 summed items whose magnitudes add up to at most \<open>10^6\<close>, where the rounding
  error of binary64 stays far below the 0.05 that would change a shown digit. As binary64
  numbers the two sides need not be equal.
\<close>

theorem repeated_append_shows_multiple:
  assumes "ledger d = None"
  shows "getTotalForDate ((append_meal d m meal ^^ n) ledger) d =
           round_totals (raw_sums (concat (replicate n meal))) \<and>
         (list_all one_decimal_item meal \<and> of_nat (max n 1) * total_magnitude meal \<le> 10 ^ 6 \<and>
          n * length meal \<le> 1000 \<longrightarrow>
            shown_totals (getTotalForDate ((append_meal d m meal ^^ n) ledger) d) =
              shown_totals (times_totals (of_nat n) (getTotalForDate (append_meal d m meal ledger) d)))"
proof
  show "getTotalForDate ((append_meal d m meal ^^ n) ledger) d =
      round_totals (raw_sums (concat (replicate n meal)))"
    using all_items_after_appends [where ledger = ledger and d = d and m = m and meal = meal and n = n] assms
    by (simp add: getTotalForDate_exact raw_sums_exact)
  show "list_all one_decimal_item meal \<and> of_nat (max n 1) * total_magnitude meal \<le> 10 ^ 6 \<and>
          n * length meal \<le> 1000 \<longrightarrow>
            shown_totals (getTotalForDate ((append_meal d m meal ^^ n) ledger) d) =
              shown_totals (times_totals (of_nat n) (getTotalForDate (append_meal d m meal ledger) d))"
  proof
    assume a: "list_all one_decimal_item meal \<and> of_nat (max n 1) * total_magnitude meal \<le> 10 ^ 6 \<and>
          n * length meal \<le> 1000"
    define k where "k = sum_list (map kcal_of meal)"
    define p where "p = sum_list (map protein_of meal)"
    define f where "f = sum_list (map fat_of meal)"
    define c where "c = sum_list (map carb_of meal)"
    have empty: "all_items ledger d = []"
      using assms by (simp add: all_items_def)
    have t: "tenths k" "tenths p" "tenths f" "tenths c"
      unfolding k_def p_def f_def c_def
      using a by (auto intro!: tenths_sum_list simp: one_decimal_item_def list_all_iff)
    have bound: "of_nat (max n 1) * total_magnitude meal \<le> 10 ^ 6" using a by simp
    have r: "\<bar>of_nat n * k\<bar> < 10 ^ 21" "\<bar>k\<bar> < 10 ^ 21" "\<bar>of_nat n * p\<bar> < 10 ^ 21" "\<bar>p\<bar> < 10 ^ 21"
      "\<bar>of_nat n * f\<bar> < 10 ^ 21" "\<bar>f\<bar> < 10 ^ 21" "\<bar>of_nat n * c\<bar> < 10 ^ 21" "\<bar>c\<bar> < 10 ^ 21"
      unfolding k_def p_def f_def c_def
      using multiple_in_bounds [OF total_magnitude_bounds(1) bound]
        multiple_in_bounds [OF total_magnitude_bounds(2) bound]
        multiple_in_bounds [OF total_magnitude_bounds(3) bound]
        multiple_in_bounds [OF total_magnitude_bounds(4) bound]
      by blast+
    have many: "getTotalForDate ((append_meal d m meal ^^ n) ledger) d =
        round_totals (fin_totals (of_nat n * k) (of_nat n * p) (of_nat n * f) (of_nat n * c))"
      by (simp add: getTotalForDate_exact exact_sums_funpow empty k_def p_def f_def c_def)
    have once: "getTotalForDate (append_meal d m meal ledger) d = round_totals (fin_totals k p f c)"
      using exact_sums_funpow [where n = "Suc 0" and d = d and m = m and meal = meal and ledger = ledger]
      by (simp add: getTotalForDate_exact empty k_def p_def f_def c_def)
    have "round_totals (fin_totals (of_nat n * k) (of_nat n * p) (of_nat n * f) (of_nat n * c)) =
        fin_totals (of_nat n * k) (of_nat n * p) (of_nat n * f) (of_nat n * c)"
      using t r by (intro round_totals_one_decimal tenths_of_nat_mult)
    moreover have "round_totals (fin_totals k p f c) = fin_totals k p f c"
      using t r by (intro round_totals_one_decimal)
    ultimately have "getTotalForDate ((append_meal d m meal ^^ n) ledger) d =
        times_totals (of_nat n) (getTotalForDate (append_meal d m meal ledger) d)"
      by (simp add: many once times_totals_def fin_totals_def)
    then show "shown_totals (getTotalForDate ((append_meal d m meal ^^ n) ledger) d) =
        shown_totals (times_totals (of_nat n) (getTotalForDate (append_meal d m meal ledger) d))"
      by (simp only:)
  qed
qed

theorem repeated_append_shows_multiple_witness:
  "getTotalForDate
     ((append_meal ''2024-05-01'' Asa
         [nutrient_item ''chicken breast'' ''400.0kcal'' ''80.0g'' ''10.0g'' ''0.1g''] ^^ 3) Map.empty)
     ''2024-05-01'' =
   round_totals (raw_sums (concat (replicate 3
     [nutrient_item ''chicken breast'' ''400.0kcal'' ''80.0g'' ''10.0g'' ''0.1g'']))) \<and>
   shown_totals (getTotalForDate
     ((append_meal ''2024-05-01'' Asa
         [nutrient_item ''chicken breast'' ''400.0kcal'' ''80.0g'' ''10.0g'' ''0.1g''] ^^ 3) Map.empty)
     ''2024-05-01'') = (''1200.0'', ''240.0'', ''30.0'', ''0.3'')"
proof -
  let ?item = "nutrient_item ''chicken breast'' ''400.0kcal'' ''80.0g'' ''10.0g'' ''0.1g''"
  have v: "kcal_of ?item = 400" "protein_of ?item = 80" "fat_of ?item = 10" "carb_of ?item = 1 / 10"
    by (simp_all add: eval_item eval_parse)
  have h1: "(Map.empty :: DailyRecords) ''2024-05-01'' = None" by simp
  have h2: "list_all one_decimal_item [?item] \<and> of_nat (max 3 1) * total_magnitude [?item] \<le> 10 ^ 6 \<and>
      3 * length [?item] \<le> 1000"
    by (simp add: one_decimal_item_def v tenths_def total_magnitude_def)
  have once: "getTotalForDate (append_meal ''2024-05-01'' Asa [?item] Map.empty) ''2024-05-01'' =
      \<lparr>kcal = Num 400, protein = Num 80, fat = Num 10, carbs = Num (1 / 10)\<rparr>"
    using round_totals_one_decimal [of 400 80 10 "1 / 10"]
    by (simp add: getTotalForDate_exact all_items_first_meal exact_sums_def v tenths_def fin_totals_def)
  have s: "shown_totals (times_totals (of_nat 3) \<lparr>kcal = Num 400, protein = Num 80, fat = Num 10, carbs = Num (1 / 10)\<rparr>) =
      (''1200.0'', ''240.0'', ''30.0'', ''0.3'')"
    by (simp add: shown_totals_def times_totals_def toFixedSafe_def num_of_def toFixed_decimal1 eval_decimal1)
  note t = repeated_append_shows_multiple [where ledger = Map.empty and d = "''2024-05-01''" and m = Asa
      and n = 3 and meal = "[?item]", OF h1]
  from t have a: "getTotalForDate ((append_meal ''2024-05-01'' Asa [?item] ^^ 3) Map.empty) ''2024-05-01'' =
      round_totals (raw_sums (concat (replicate 3 [?item])))"
    by (rule conjunct1)
  from t h2 have "shown_totals (getTotalForDate ((append_meal ''2024-05-01'' Asa [?item] ^^ 3) Map.empty) ''2024-05-01'') =
      shown_totals (times_totals (of_nat 3)
        (getTotalForDate (append_meal ''2024-05-01'' Asa [?item] Map.empty) ''2024-05-01''))"
    by blast
  then have b: "shown_totals (getTotalForDate ((append_meal ''2024-05-01'' Asa [?item] ^^ 3) Map.empty) ''2024-05-01'') =
      (''1200.0'', ''240.0'', ''30.0'', ''0.3'')"
    by (simp only: once s)
  from a b show ?thesis by (rule conjI)
qed

text \<open>
  C5 as stated fails in two ways. For an entry that is not in the scaler's format,
  rounding does not commute with the multiplication: a meal of 0.04 kcal appended once
  shows 0.0, and appended twice shows 0.1, which is not twice 0.0. And for an entry in
  that format the two sides are shown alike without being the same binary64 number. With
  0.1 kcal appended three times, the binary64 number for 0.1 is the first fraction
  below; it is shown as 0.1, so it is the total after a single append as well. Its
  double is a binary64 number, and adding it once more, which is three times the number
  rounded, gives the second fraction, 0.30000000000000004. This sum is shown as 0.3, and
  the total after three appends is the binary64 number for 0.3, the third fraction.
  Three times the single total is the second fraction again, and not the third.
\<close>

theorem repeated_append_of_small_entry:
  "kcal (getTotalForDate
           (append_meal ''2024-05-01'' Asa [nutrient_item ''salt'' ''0.04kcal'' ''0g'' ''0g'' ''0g''] Map.empty)
           ''2024-05-01'') = Num 0 \<and>
   kcal (getTotalForDate
           (append_meal ''2024-05-01'' Asa [nutrient_item ''salt'' ''0.04kcal'' ''0g'' ''0g'' ''0g'']
              (append_meal ''2024-05-01'' Asa [nutrient_item ''salt'' ''0.04kcal'' ''0g'' ''0g'' ''0g''] Map.empty))
           ''2024-05-01'') = Num (1 / 10) \<and>
   Num (1 / 10) \<noteq> js_mul (Num 2) (Num 0) \<and>
   in_binade (- 4) (1 / 10) \<and>
   binary64_in (- 4) (1 / 10) = 3602879701896397 / 36028797018963968 \<and>
   decimal1 (3602879701896397 / 36028797018963968) = ''0.1'' \<and>
   in_binade (- 3) (2 * (3602879701896397 / 36028797018963968)) \<and>
   binary64_in (- 3) (2 * (3602879701896397 / 36028797018963968)) = 2 * (3602879701896397 / 36028797018963968) \<and>
   in_binade (- 2) (3 * (3602879701896397 / 36028797018963968)) \<and>
   binary64_in (- 2) (3 * (3602879701896397 / 36028797018963968)) = 5404319552844596 / 18014398509481984 \<and>
   decimal1 (5404319552844596 / 18014398509481984) = ''0.3'' \<and>
   in_binade (- 2) (3 / 10) \<and>
   binary64_in (- 2) (3 / 10) = 5404319552844595 / 18014398509481984 \<and>
   (5404319552844595 / 18014398509481984 :: rat) \<noteq> 5404319552844596 / 18014398509481984"
proof -
  let ?salt = "nutrient_item ''salt'' ''0.04kcal'' ''0g'' ''0g'' ''0g''"
  let ?one = "append_meal ''2024-05-01'' Asa [?salt] Map.empty"
  have shown: "js_Number (toFixedSafe (Num x) (Suc 0)) = Num (round_tenths x)" if "\<bar>x\<bar> < 10 ^ 21" for x
    using js_Number_toFixedSafe [of "Num x"] that by (simp add: in_fixed_range_def num_of_def)
  have v: "kcal_of ?salt = 1 / 25"
    by (simp add: eval_item eval_parse)
  have r: "round_tenths (1 / 25) = 0" "round_tenths (2 / 25) = 1 / 10"
    by (simp_all add: round_tenths_def signed_def floor_rat_numeral_divide)
  have 1: "kcal (getTotalForDate ?one ''2024-05-01'') = Num 0"
    by (simp add: getTotalForDate_exact all_items_first_meal exact_sums_def fin_totals_def
        round_totals_def v shown r)
  have "exact_sums (all_items (append_meal ''2024-05-01'' Asa [?salt] ?one) ''2024-05-01'') =
      exact_sums ([?salt] @ [?salt])"
    by (simp only: all_items_append_meal all_items_first_meal)
  also have "kcal (exact_sums ([?salt] @ [?salt])) = Num (2 / 25)"
    by (simp add: exact_sums_def fin_totals_def v)
  finally have k2: "kcal (exact_sums (all_items (append_meal ''2024-05-01'' Asa [?salt] ?one) ''2024-05-01'')) =
      Num (2 / 25)" .
  have "kcal (getTotalForDate (append_meal ''2024-05-01'' Asa [?salt] ?one) ''2024-05-01'') =
      js_Number (toFixedSafe (Num (2 / 25)) (Suc 0))"
    by (simp only: getTotalForDate_exact kcal_round_totals k2)
  then have 2: "kcal (getTotalForDate (append_meal ''2024-05-01'' Asa [?salt] ?one) ''2024-05-01'') = Num (1 / 10)"
    by (simp add: shown r)
  have 3: "Num (1 / 10) \<noteq> js_mul (Num 2) (Num 0)" by simp
  have 4: "in_binade (- 4) (1 / 10)" "in_binade (- 3) (2 * (3602879701896397 / 36028797018963968))"
    "in_binade (- 2) (3 * (3602879701896397 / 36028797018963968))" "in_binade (- 2) (3 / 10)"
    by (simp_all add: in_binade_def pow2_def)
  have 5: "binary64_in (- 4) (1 / 10) = 3602879701896397 / 36028797018963968"
    "binary64_in (- 3) (2 * (3602879701896397 / 36028797018963968)) = 2 * (3602879701896397 / 36028797018963968)"
    "binary64_in (- 2) (3 * (3602879701896397 / 36028797018963968)) = 5404319552844596 / 18014398509481984"
    "binary64_in (- 2) (3 / 10) = 5404319552844595 / 18014398509481984"
    by (simp_all add: binary64_in_def pow2_def round_half_even_def Let_def floor_rat_numeral_divide)
  have 6: "decimal1 (3602879701896397 / 36028797018963968) = ''0.1''"
    "decimal1 (5404319552844596 / 18014398509481984) = ''0.3''"
    by (simp_all add: eval_decimal1)
  have 7: "(5404319552844595 / 18014398509481984 :: rat) \<noteq> 5404319552844596 / 18014398509481984"
    by simp
  from 1 2 3 4 5 6 7 show ?thesis by (intro conjI)
qed

end
